theory Spec2Isabelle
  imports Main
begin

section \<open>Data model\<close>

text \<open>
  The views of \<^verbatim>\<open>accounts/views.py\<close> work on three Django models:
  \<^verbatim>\<open>SavingsAccount\<close>, \<^verbatim>\<open>CurrentAccount\<close> and \<^verbatim>\<open>Transaction\<close>.
  The store is modelled as one table per model. Rows are never deleted, so the
  primary key of a row is its position in its table. Monetary amounts are exact
  decimals; they are modelled as integers of the smallest currency unit.
  Timestamps are natural numbers (clock ticks).
\<close>

datatype kind = Savings | Current

datatype txn_type = DEPOSIT | WITHDRAWAL | TRANSFER_IN | TRANSFER_OUT

record account =
  account_number :: string
  customer :: nat
  balance :: int
  is_active :: bool

type_synonym account_ref = "kind \<times> nat"

text \<open>A model object in memory: the row it was loaded from, and a copy of its fields.\<close>

type_synonym account_obj = "account_ref \<times> account"

record transaction =
  tx_account :: account_ref
  transaction_type :: txn_type
  amount :: int
  description :: string
  timestamp :: nat
  balance_after :: int

record db =
  savings :: "account list"
  current :: "account list"
  transactions :: "transaction list"

text \<open>
  The exceptions of the model: the two of the object manager, the two of the account
  methods, and \<open>DatabaseError\<close>, the store refusing a statement.
\<close>

datatype error =
    DoesNotExist
  | MultipleObjectsReturned
  | InvalidAmount
  | InsufficientFunds
  | DatabaseError

text \<open>
  A request as a view reads it: its method, whether the posted form validated, and
  the form's cleaned data. The form classes are not part of the views; their verdict
  is an input.
\<close>

datatype 'f request = GET | POST_invalid | POST_valid 'f

text \<open>
  What a view answers:
  \<^item> \<open>AccountNotFound\<close>: message "Account not found.", redirect to the dashboard;
  \<^item> \<open>RecipientNotFound\<close>: message "Recipient account not found.";
  \<^item> \<open>Success\<close>: the success message and the redirect after it;
  \<^item> \<open>Rejected e\<close>: the \<^verbatim>\<open>except ValueError\<close> branch;
  \<^item> \<open>Failed e\<close>: the \<^verbatim>\<open>except Exception\<close> branch;
  \<^item> \<open>FormInvalid\<close>: "Please correct the errors below.";
  \<^item> \<open>ShowForm\<close>: the empty form of a GET request;
  \<^item> \<open>NoAction\<close>: a redirect with no message and no effect;
  \<^item> \<open>ServerError e\<close>: an exception no handler of the view catches.
\<close>

datatype response =
    AccountNotFound
  | RecipientNotFound
  | Success
  | Rejected error
  | Failed error
  | FormInvalid
  | ShowForm
  | NoAction
  | ServerError error

section \<open>The object manager\<close>

definition table :: "kind \<Rightarrow> db \<Rightarrow> account list" where
  "table k d = (case k of Savings \<Rightarrow> savings d | Current \<Rightarrow> current d)"

definition objects_all :: "kind \<Rightarrow> db \<Rightarrow> account_obj list" where
  "objects_all k d = map (\<lambda>(i, a). ((k, i), a)) (enumerate 0 (table k d))"

text \<open>\<^verbatim>\<open>Model.objects.filter(...)\<close>: the matching rows, in primary-key order.\<close>

definition objects_filter :: "kind \<Rightarrow> (account \<Rightarrow> bool) \<Rightarrow> db \<Rightarrow> account_obj list" where
  "objects_filter k P d = filter (\<lambda>obj. P (snd obj)) (objects_all k d)"

text \<open>
  \<^verbatim>\<open>Model.objects.get(...)\<close>: the one matching row; \<^verbatim>\<open>DoesNotExist\<close> when
  there is none, \<^verbatim>\<open>MultipleObjectsReturned\<close> when there are several.
\<close>

definition objects_get :: "kind \<Rightarrow> (account \<Rightarrow> bool) \<Rightarrow> db \<Rightarrow> error + account_obj" where
  "objects_get k P d =
     (case objects_filter k P d of
        [] \<Rightarrow> Inl DoesNotExist
      | [obj] \<Rightarrow> Inr obj
      | _ \<Rightarrow> Inl MultipleObjectsReturned)"

text \<open>
  \<^verbatim>\<open>Model.objects.create(customer=..., balance=0)\<close>: a new row at the end of the
  table. Modelled from the spec: the models are missing; the account number is
  "generated at creation" (here the parameter \<open>number\<close>) and a new account is active.
\<close>

definition objects_create :: "kind \<Rightarrow> string \<Rightarrow> nat \<Rightarrow> int \<Rightarrow> db \<Rightarrow> account_obj \<times> db" where
  "objects_create k number user bal d =
     (let row = \<lparr>account_number = number, customer = user, balance = bal, is_active = True\<rparr>
      in (((k, length (table k d)), row),
          (case k of
             Savings \<Rightarrow> d\<lparr>savings := savings d @ [row]\<rparr>
           | Current \<Rightarrow> d\<lparr>current := current d @ [row]\<rparr>)))"

text \<open>
  \<^verbatim>\<open>obj.save()\<close> of an account object: every field of its row is overwritten with
  the object's copy. The objects of the views all come from \<open>objects_get\<close> or
  \<open>objects_create\<close>, so the row exists.
\<close>

definition save_account :: "account_obj \<Rightarrow> db \<Rightarrow> db" where
  "save_account obj d =
     (case fst (fst obj) of
        Savings \<Rightarrow> d\<lparr>savings := (savings d)[snd (fst obj) := snd obj]\<rparr>
      | Current \<Rightarrow> d\<lparr>current := (current d)[snd (fst obj) := snd obj]\<rparr>)"

definition create_transaction :: "transaction \<Rightarrow> db \<Rightarrow> db" where
  "create_transaction t d = d\<lparr>transactions := transactions d @ [t]\<rparr>"

text \<open>\<^verbatim>\<open>txn.save()\<close> of a transaction object loaded from row \<open>i\<close>.\<close>

definition save_transaction :: "nat \<Rightarrow> transaction \<Rightarrow> db \<Rightarrow> db" where
  "save_transaction i t d = d\<lparr>transactions := (transactions d)[i := t]\<rparr>"

text \<open>\<^verbatim>\<open>acc.transactions\<close>: the transaction rows of one account, with their keys.\<close>

definition account_transactions :: "account_ref \<Rightarrow> db \<Rightarrow> (nat \<times> transaction) list" where
  "account_transactions r d =
     filter (\<lambda>it. tx_account (snd it) = r) (enumerate 0 (transactions d))"

text \<open>
  \<^verbatim>\<open>acc.transactions.all()\<close> in the model's default ordering. Modelled from the
  spec: the ordering is declared in the missing models; the spec has histories
  "most-recent-first", with "ties broken by insertion order".
\<close>

definition transactions_all :: "account_ref \<Rightarrow> db \<Rightarrow> transaction list" where
  "transactions_all r d =
     sort_key (\<lambda>t. - int (timestamp t)) (map snd (account_transactions r d))"

text \<open>
  \<^verbatim>\<open>acc.transactions.latest('timestamp')\<close>: the row with the greatest timestamp
  (the first inserted of them, should several share it), \<^verbatim>\<open>DoesNotExist\<close> when
  the account has no transaction.
\<close>

fun latest_of :: "(nat \<times> transaction) list \<Rightarrow> (nat \<times> transaction) option" where
  "latest_of [] = None"
| "latest_of (x # xs) =
     (case latest_of xs of
        None \<Rightarrow> Some x
      | Some y \<Rightarrow> if timestamp (snd x) < timestamp (snd y) then Some y else Some x)"

definition latest :: "account_ref \<Rightarrow> db \<Rightarrow> error + (nat \<times> transaction)" where
  "latest r d =
     (case latest_of (account_transactions r d) of
        None \<Rightarrow> Inl DoesNotExist
      | Some it \<Rightarrow> Inr it)"

section \<open>The account methods\<close>

text \<open>
  Modelled from the spec: the model classes (\<^verbatim>\<open>accounts/models.py\<close>) are missing.
  \<open>get_balance\<close> "returns current balance"; \<open>get_minimum_balance\<close> is a "pure function
  of account variant/configuration", here the parameter \<open>mb\<close>.
\<close>

definition get_balance :: "account_obj \<Rightarrow> int" where
  "get_balance obj = balance (snd obj)"

definition get_minimum_balance :: "(kind \<Rightarrow> int) \<Rightarrow> account_obj \<Rightarrow> int" where
  "get_minimum_balance mb obj = mb (fst (fst obj))"

text \<open>
  A method or block that may raise returns the exception or its result, and the store
  as it stands at that moment: writes made before an exception stay, unless an atomic
  block undoes them.
\<close>

type_synonym 'a outcome = "(error + 'a) \<times> db"

text \<open>
  Modelled from the spec: \<^verbatim>\<open>deposit\<close> of the missing model classes. "requires
  amount > 0; fails with InvalidAmount otherwise. Effect: balance += amount; appends a
  Transaction of type DEPOSIT with balanceAfter = balance." The method works on the
  object in memory and saves it. The spec fixes no description for the new record.
\<close>

definition deposit :: "nat \<Rightarrow> int \<Rightarrow> account_obj \<Rightarrow> db \<Rightarrow> account_obj outcome" where
  "deposit now amt obj d =
     (if amt \<le> 0 then (Inl InvalidAmount, d)
      else
        let obj' = (fst obj, (snd obj)\<lparr>balance := balance (snd obj) + amt\<rparr>);
            d1 = save_account obj' d;
            d2 = create_transaction
                   \<lparr>tx_account = fst obj, transaction_type = DEPOSIT, amount = amt,
                    description = [], timestamp = now,
                    balance_after = balance (snd obj')\<rparr> d1
        in (Inr obj', d2))"

text \<open>
  Modelled from the spec: \<^verbatim>\<open>withdraw\<close> of the missing model classes. "requires
  amount > 0, fails with InvalidAmount otherwise. Requires balance - amount >=
  minimumBalance; fails with InsufficientFunds otherwise. Effect: balance -= amount;
  appends a Transaction of type WITHDRAWAL."
\<close>

definition withdraw ::
  "(kind \<Rightarrow> int) \<Rightarrow> nat \<Rightarrow> int \<Rightarrow> account_obj \<Rightarrow> db \<Rightarrow> account_obj outcome" where
  "withdraw mb now amt obj d =
     (if amt \<le> 0 then (Inl InvalidAmount, d)
      else if balance (snd obj) - amt < get_minimum_balance mb obj
      then (Inl InsufficientFunds, d)
      else
        let obj' = (fst obj, (snd obj)\<lparr>balance := balance (snd obj) - amt\<rparr>);
            d1 = save_account obj' d;
            d2 = create_transaction
                   \<lparr>tx_account = fst obj, transaction_type = WITHDRAWAL, amount = amt,
                    description = [], timestamp = now,
                    balance_after = balance (snd obj')\<rparr> d1
        in (Inr obj', d2))"

text \<open>Both errors of the two methods are \<^verbatim>\<open>ValueError\<close>s.\<close>

definition is_ValueError :: "error \<Rightarrow> bool" where
  "is_ValueError e = (e = InvalidAmount \<or> e = InsufficientFunds)"

section \<open>Account lookup\<close>

text \<open>
  The lookup every account view starts with (for example \<^verbatim>\<open>account_detail\<close>, lines
  173-188): \<^verbatim>\<open>SavingsAccount.objects.get(account_number=..., customer=request.user,
  is_active=True)\<close>, and on \<^verbatim>\<open>SavingsAccount.DoesNotExist\<close> the same query on
  \<^verbatim>\<open>CurrentAccount\<close>. Only \<^verbatim>\<open>DoesNotExist\<close> is caught.
\<close>

definition get_own_account :: "nat \<Rightarrow> string \<Rightarrow> db \<Rightarrow> error + account_obj" where
  "get_own_account user number d =
     (case objects_get Savings
             (\<lambda>a. account_number a = number \<and> customer a = user \<and> is_active a) d of
        Inr obj \<Rightarrow> Inr obj
      | Inl DoesNotExist \<Rightarrow>
          objects_get Current
            (\<lambda>a. account_number a = number \<and> customer a = user \<and> is_active a) d
      | Inl e \<Rightarrow> Inl e)"

text \<open>The recipient lookup of \<^verbatim>\<open>transfer_money\<close> (lines 346-353): no owner filter.\<close>

definition get_recipient_account :: "string \<Rightarrow> db \<Rightarrow> error + account_obj" where
  "get_recipient_account number d =
     (case objects_get Savings (\<lambda>a. account_number a = number \<and> is_active a) d of
        Inr obj \<Rightarrow> Inr obj
      | Inl DoesNotExist \<Rightarrow>
          objects_get Current (\<lambda>a. account_number a = number \<and> is_active a) d
      | Inl e \<Rightarrow> Inl e)"

section \<open>The views\<close>

subsection \<open>dashboard\<close>

record dashboard_context =
  savings_accounts :: "account_obj list"
  current_accounts :: "account_obj list"
  total_balance :: int
  recent_transactions :: "transaction list"
  total_accounts :: nat

definition dashboard :: "nat \<Rightarrow> db \<Rightarrow> dashboard_context" where
  "dashboard user d =
     (let sav = objects_filter Savings (\<lambda>a. customer a = user \<and> is_active a) d;
          cur = objects_filter Current (\<lambda>a. customer a = user \<and> is_active a) d;
          total = sum_list (map get_balance sav) + sum_list (map get_balance cur);
          recent = concat (map (\<lambda>acc. take 5 (transactions_all (fst acc) d)) sav)
                   @ concat (map (\<lambda>acc. take 5 (transactions_all (fst acc) d)) cur);
          sorted_recent = sort_key (\<lambda>t. - int (timestamp t)) recent
      in \<lparr>savings_accounts = sav, current_accounts = cur, total_balance = total,
          recent_transactions = take 10 sorted_recent,
          total_accounts = length sav + length cur\<rparr>)"

subsection \<open>create_account\<close>

text \<open>
  The form's cleaned data are the account type and the initial deposit. The account
  is created and then credited; the two steps are not inside an atomic block.
\<close>

definition create_account ::
  "nat \<Rightarrow> string \<Rightarrow> nat \<Rightarrow> (string \<times> int) request \<Rightarrow> db \<Rightarrow> response \<times> db" where
  "create_account user number now req d =
     (case req of
        GET \<Rightarrow> (ShowForm, d)
      | POST_invalid \<Rightarrow> (FormInvalid, d)
      | POST_valid (account_type, initial_deposit) \<Rightarrow>
          if account_type = ''savings'' then
            (case objects_create Savings number user 0 d of
               (acc, d1) \<Rightarrow>
                 (case deposit now initial_deposit acc d1 of
                    (Inr _, d2) \<Rightarrow> (Success, d2)
                  | (Inl e, d2) \<Rightarrow> (Failed e, d2)))
          else if account_type = ''current'' then
            (case objects_create Current number user 0 d of
               (acc, d1) \<Rightarrow>
                 (case deposit now initial_deposit acc d1 of
                    (Inr _, d2) \<Rightarrow> (Success, d2)
                  | (Inl e, d2) \<Rightarrow> (Failed e, d2)))
          else (NoAction, d))"

subsection \<open>account_detail\<close>

definition account_detail ::
  "(kind \<Rightarrow> int) \<Rightarrow> nat \<Rightarrow> string \<Rightarrow> db \<Rightarrow> response + (account_obj \<times> transaction list \<times> int)" where
  "account_detail mb user number d =
     (case get_own_account user number d of
        Inl DoesNotExist \<Rightarrow> Inl AccountNotFound
      | Inl e \<Rightarrow> Inl (ServerError e)
      | Inr acc \<Rightarrow>
          Inr (acc, take 20 (transactions_all (fst acc) d), get_minimum_balance mb acc))"

subsection \<open>deposit_money and withdraw_money\<close>



subsection \<open>transfer_money\<close>

text \<open>
  \<^verbatim>\<open>with db_transaction.atomic():\<close> the block's writes are kept when it ends
  normally; when an exception leaves it they are undone, and the exception goes on.
\<close>

definition atomic :: "(db \<Rightarrow> 'a outcome) \<Rightarrow> db \<Rightarrow> 'a outcome" where
  "atomic body d =
     (case body d of
        (Inl e, _) \<Rightarrow> (Inl e, d)
      | (Inr x, d') \<Rightarrow> (Inr x, d'))"

text \<open>The relabelling of lines 364-373, on the store as the deposit left it.\<close>

definition relabel ::
  "account_ref \<Rightarrow> account_ref \<Rightarrow> string \<Rightarrow> string \<Rightarrow> string \<Rightarrow> db \<Rightarrow> unit outcome" where
  "relabel from_ref to_ref from_number to_number descr d =
     (case latest from_ref d of
        Inl e \<Rightarrow> (Inl e, d)
      | Inr (i, last_withdrawal) \<Rightarrow>
          let d1 = save_transaction i
                     (last_withdrawal
                        \<lparr>description := ''Transfer to '' @ to_number @ '': '' @ descr,
                         transaction_type := TRANSFER_OUT\<rparr>) d
          in (case latest to_ref d1 of
                Inl e \<Rightarrow> (Inl e, d1)
              | Inr (j, last_deposit) \<Rightarrow>
                  (Inr (),
                   save_transaction j
                     (last_deposit
                        \<lparr>description := ''Transfer from '' @ from_number @ '': '' @ descr,
                         transaction_type := TRANSFER_IN\<rparr>) d1)))"

text \<open>
  The body of the atomic block (lines 358-373). \<open>now_w\<close> and \<open>now_d\<close> are the clock
  readings at which the withdrawal's and the deposit's records are created.
\<close>

definition transfer_body ::
  "(kind \<Rightarrow> int) \<Rightarrow> nat \<Rightarrow> nat \<Rightarrow> account_obj \<Rightarrow> account_obj \<Rightarrow> string \<Rightarrow> string \<Rightarrow>
   string \<Rightarrow> int \<Rightarrow> db \<Rightarrow> unit outcome" where
  "transfer_body mb now_w now_d from_account to_account from_number to_number descr amt d =
     (case withdraw mb now_w amt from_account d of
        (Inl e, d1) \<Rightarrow> (Inl e, d1)
      | (Inr from_account', d1) \<Rightarrow>
          (case deposit now_d amt to_account d1 of
             (Inl e, d2) \<Rightarrow> (Inl e, d2)
           | (Inr to_account', d2) \<Rightarrow>
               relabel (fst from_account') (fst to_account') from_number to_number descr d2))"

text \<open>
  The form's cleaned data are the recipient's number, the amount and the
  description, \<open>None\<close> when the key is absent (then "Fund Transfer" is used).
\<close>

definition transfer_money ::
  "(kind \<Rightarrow> int) \<Rightarrow> nat \<Rightarrow> string \<Rightarrow> nat \<Rightarrow> nat \<Rightarrow>
   (string \<times> int \<times> string option) request \<Rightarrow> db \<Rightarrow> response \<times> db" where
  "transfer_money mb user from_number now_w now_d req d =
     (case get_own_account user from_number d of
        Inl DoesNotExist \<Rightarrow> (AccountNotFound, d)
      | Inl e \<Rightarrow> (ServerError e, d)
      | Inr from_account \<Rightarrow>
          (case req of
             GET \<Rightarrow> (ShowForm, d)
           | POST_invalid \<Rightarrow> (FormInvalid, d)
           | POST_valid (to_number, amt, descr_opt) \<Rightarrow>
               (let descr = (case descr_opt of None \<Rightarrow> ''Fund Transfer'' | Some s \<Rightarrow> s)
                in case get_recipient_account to_number d of
                     Inl DoesNotExist \<Rightarrow> (RecipientNotFound, d)
                   | Inl e \<Rightarrow> (ServerError e, d)
                   | Inr to_account \<Rightarrow>
                       (case atomic
                               (transfer_body mb now_w now_d from_account to_account
                                  from_number to_number descr amt) d of
                          (Inr _, d') \<Rightarrow> (Success, d')
                        | (Inl e, d') \<Rightarrow>
                            (if is_ValueError e then Rejected e else Failed e, d')))))"

subsection \<open>transfer_money when the store fails\<close>

text \<open>
  The store can refuse any statement of the atomic block (a lost connection, a lock
  timeout). Which statement it refuses, if any, is an input: \<open>fault\<close> names the
  statement that raises \<open>DatabaseError\<close> instead of running. The statements before
  it have run and have written to the store.
\<close>

datatype block_step = Withdraw_step | Deposit_step | Relabel_out_step | Relabel_in_step

text \<open>
  The body of the atomic block (lines 358-373) with the fault: \<open>withdraw\<close>,
  \<open>deposit\<close>, the relabelling of the withdrawal's record (lines 365-368) and the
  relabelling of the deposit's record (lines 370-373).
\<close>

definition transfer_body_with_fault ::
  "block_step option \<Rightarrow> (kind \<Rightarrow> int) \<Rightarrow> nat \<Rightarrow> nat \<Rightarrow> account_obj \<Rightarrow> account_obj \<Rightarrow>
   string \<Rightarrow> string \<Rightarrow> string \<Rightarrow> int \<Rightarrow> db \<Rightarrow> unit outcome" where
  "transfer_body_with_fault fault mb now_w now_d from_account to_account from_number to_number
     descr amt d =
     (if fault = Some Withdraw_step then (Inl DatabaseError, d)
      else
        case withdraw mb now_w amt from_account d of
          (Inl e, d1) \<Rightarrow> (Inl e, d1)
        | (Inr from_account', d1) \<Rightarrow>
            if fault = Some Deposit_step then (Inl DatabaseError, d1)
            else
              case deposit now_d amt to_account d1 of
                (Inl e, d2) \<Rightarrow> (Inl e, d2)
              | (Inr to_account', d2) \<Rightarrow>
                  if fault = Some Relabel_out_step then (Inl DatabaseError, d2)
                  else
                    case latest (fst from_account') d2 of
                      Inl e \<Rightarrow> (Inl e, d2)
                    | Inr (i, last_withdrawal) \<Rightarrow>
                        let d3 = save_transaction i
                                   (last_withdrawal
                                      \<lparr>description :=
                                         ''Transfer to '' @ to_number @ '': '' @ descr,
                                       transaction_type := TRANSFER_OUT\<rparr>) d2
                        in if fault = Some Relabel_in_step then (Inl DatabaseError, d3)
                           else
                             case latest (fst to_account') d3 of
                               Inl e \<Rightarrow> (Inl e, d3)
                             | Inr (j, last_deposit) \<Rightarrow>
                                 (Inr (),
                                  save_transaction j
                                    (last_deposit
                                       \<lparr>description :=
                                          ''Transfer from '' @ from_number @ '': '' @ descr,
                                        transaction_type := TRANSFER_IN\<rparr>) d3))"

text \<open>
  The view around it, as \<open>transfer_money\<close>: the lookups are outside the block, the
  block is atomic, \<^verbatim>\<open>except ValueError\<close> and \<^verbatim>\<open>except Exception\<close> answer its
  exception.
\<close>

definition transfer_money_with_fault ::
  "block_step option \<Rightarrow> (kind \<Rightarrow> int) \<Rightarrow> nat \<Rightarrow> string \<Rightarrow> nat \<Rightarrow> nat \<Rightarrow>
   (string \<times> int \<times> string option) request \<Rightarrow> db \<Rightarrow> response \<times> db" where
  "transfer_money_with_fault fault mb user from_number now_w now_d req d =
     (case get_own_account user from_number d of
        Inl DoesNotExist \<Rightarrow> (AccountNotFound, d)
      | Inl e \<Rightarrow> (ServerError e, d)
      | Inr from_account \<Rightarrow>
          (case req of
             GET \<Rightarrow> (ShowForm, d)
           | POST_invalid \<Rightarrow> (FormInvalid, d)
           | POST_valid (to_number, amt, descr_opt) \<Rightarrow>
               (let descr = (case descr_opt of None \<Rightarrow> ''Fund Transfer'' | Some s \<Rightarrow> s)
                in case get_recipient_account to_number d of
                     Inl DoesNotExist \<Rightarrow> (RecipientNotFound, d)
                   | Inl e \<Rightarrow> (ServerError e, d)
                   | Inr to_account \<Rightarrow>
                       (case atomic
                               (transfer_body_with_fault fault mb now_w now_d from_account
                                  to_account from_number to_number descr amt) d of
                          (Inr _, d') \<Rightarrow> (Success, d')
                        | (Inl e, d') \<Rightarrow>
                            (if is_ValueError e then Rejected e else Failed e, d')))))"

section \<open>Auxiliary definitions for the properties\<close>

text \<open>The store as the relabelling step finds it: after the withdrawal and the deposit.\<close>

definition before_relabel ::
  "(kind \<Rightarrow> int) \<Rightarrow> nat \<Rightarrow> nat \<Rightarrow> int \<Rightarrow> account_obj \<Rightarrow> account_obj \<Rightarrow> db \<Rightarrow> db" where
  "before_relabel mb now_w now_d amt from_account to_account d =
     snd (deposit now_d amt to_account (snd (withdraw mb now_w amt from_account d)))"

text \<open>The two field assignments of the relabelling, as functions on a record.\<close>

definition label_out :: "string \<Rightarrow> string \<Rightarrow> transaction \<Rightarrow> transaction" where
  "label_out tn descr t =
     t\<lparr>description := ''Transfer to '' @ tn @ '': '' @ descr, transaction_type := TRANSFER_OUT\<rparr>"

definition label_in :: "string \<Rightarrow> string \<Rightarrow> transaction \<Rightarrow> transaction" where
  "label_in fn descr t =
     t\<lparr>description := ''Transfer from '' @ fn @ '': '' @ descr, transaction_type := TRANSFER_IN\<rparr>"

text \<open>
  Example data. The floors are those of the spec's scenarios: 500 for a savings
  account, 0 for a current account.
\<close>

definition mb0 :: "kind \<Rightarrow> int" where
  "mb0 k = (case k of Savings \<Rightarrow> 500 | Current \<Rightarrow> 0)"

definition empty_db :: db where
  "empty_db = \<lparr>savings = [], current = [], transactions = []\<rparr>"

definition ex_db :: db where
  "ex_db =
     \<lparr>savings = [\<lparr>account_number = ''S1'', customer = 1, balance = 1000, is_active = True\<rparr>],
      current = [\<lparr>account_number = ''C1'', customer = 2, balance = 50, is_active = True\<rparr>],
      transactions =
        [\<lparr>tx_account = (Savings, 0), transaction_type = DEPOSIT, amount = 1000,
          description = [], timestamp = 1, balance_after = 1000\<rparr>,
         \<lparr>tx_account = (Current, 0), transaction_type = DEPOSIT, amount = 50,
          description = [], timestamp = 2, balance_after = 50\<rparr>]\<rparr>"

definition ex_from :: account_obj where
  "ex_from = ((Savings, 0),
              \<lparr>account_number = ''S1'', customer = 1, balance = 1000, is_active = True\<rparr>)"

definition ex_to :: account_obj where
  "ex_to = ((Current, 0),
            \<lparr>account_number = ''C1'', customer = 2, balance = 50, is_active = True\<rparr>)"

text \<open>A store with an inactive savings account whose number a current account shares.\<close>

definition ex_lookup_db :: db where
  "ex_lookup_db =
     \<lparr>savings = [\<lparr>account_number = ''A1'', customer = 1, balance = 100, is_active = False\<rparr>,
                 \<lparr>account_number = ''A2'', customer = 1, balance = 700, is_active = True\<rparr>],
      current = [\<lparr>account_number = ''A1'', customer = 1, balance = 30, is_active = True\<rparr>],
      transactions = []\<rparr>"

section \<open>The lookup as one function of an optional owner\<close>

text \<open>
  The views use the lookup in two forms: restricted to the accounts of the requesting
  customer (\<open>get_own_account\<close>) and unrestricted (\<open>get_recipient_account\<close>).
  \<open>account_matches\<close> is the query both forms pass to the object manager.
\<close>

definition account_lookup :: "nat option \<Rightarrow> string \<Rightarrow> db \<Rightarrow> error + account_obj" where
  "account_lookup owner number d =
     (case owner of
        Some user \<Rightarrow> get_own_account user number d
      | None \<Rightarrow> get_recipient_account number d)"

definition account_matches :: "nat option \<Rightarrow> string \<Rightarrow> account \<Rightarrow> bool" where
  "account_matches owner number a =
     (account_number a = number \<and> is_active a
      \<and> (case owner of None \<Rightarrow> True | Some user \<Rightarrow> customer a = user))"

text \<open>\<open>ex_db\<close> after 100 has been transferred from S1 to C1 at the clock readings 3 and 4.\<close>

definition ex_after :: db where
  "ex_after =
     \<lparr>savings = [\<lparr>account_number = ''S1'', customer = 1, balance = 900, is_active = True\<rparr>],
      current = [\<lparr>account_number = ''C1'', customer = 2, balance = 150, is_active = True\<rparr>],
      transactions =
        [\<lparr>tx_account = (Savings, 0), transaction_type = DEPOSIT, amount = 1000,
          description = [], timestamp = 1, balance_after = 1000\<rparr>,
         \<lparr>tx_account = (Current, 0), transaction_type = DEPOSIT, amount = 50,
          description = [], timestamp = 2, balance_after = 50\<rparr>,
         \<lparr>tx_account = (Savings, 0), transaction_type = TRANSFER_OUT, amount = 100,
          description = ''Transfer to C1: Fund Transfer'', timestamp = 3, balance_after = 900\<rparr>,
         \<lparr>tx_account = (Current, 0), transaction_type = TRANSFER_IN, amount = 100,
          description = ''Transfer from S1: Fund Transfer'', timestamp = 4,
          balance_after = 150\<rparr>]\<rparr>"

section \<open>The dashboard's list, as the code builds it and as it is described\<close>

text \<open>
  The transactions the dashboard sorts: the first five of each active account of the
  customer, savings accounts first.
\<close>

definition dashboard_candidates :: "nat \<Rightarrow> db \<Rightarrow> transaction list" where
  "dashboard_candidates user d =
     concat (map (\<lambda>acc. take 5 (transactions_all (fst acc) d))
               (objects_filter Savings (\<lambda>a. customer a = user \<and> is_active a) d))
     @ concat (map (\<lambda>acc. take 5 (transactions_all (fst acc) d))
                 (objects_filter Current (\<lambda>a. customer a = user \<and> is_active a) d))"

text \<open>The candidates the truncation to ten leaves out.\<close>

definition dashboard_omitted :: "nat \<Rightarrow> db \<Rightarrow> transaction list" where
  "dashboard_omitted user d =
     drop 10 (sort_key (\<lambda>t. - int (timestamp t)) (dashboard_candidates user d))"

text \<open>
  The list in the words of the description: "the most recent transactions taken across
  all of that customer's active accounts, sorted by timestamp descending and truncated
  to a fixed count (10)".
\<close>

definition most_recent_across :: "nat \<Rightarrow> db \<Rightarrow> transaction list" where
  "most_recent_across user d =
     take 10
       (sort_key (\<lambda>t. - int (timestamp t))
          (concat (map (\<lambda>acc. transactions_all (fst acc) d)
                     (objects_filter Savings (\<lambda>a. customer a = user \<and> is_active a) d
                      @ objects_filter Current (\<lambda>a. customer a = user \<and> is_active a) d))))"

text \<open>
  A customer with a savings account that has six transactions (clock readings 11 to
  16) and a current account that has one older transaction (clock reading 1).
\<close>

definition ex_dash_db :: db where
  "ex_dash_db =
     \<lparr>savings = [\<lparr>account_number = ''S1'', customer = 1, balance = 600, is_active = True\<rparr>],
      current = [\<lparr>account_number = ''C1'', customer = 1, balance = 10, is_active = True\<rparr>],
      transactions =
        [\<lparr>tx_account = (Current, 0), transaction_type = DEPOSIT, amount = 10,
          description = [], timestamp = 1, balance_after = 10\<rparr>,
         \<lparr>tx_account = (Savings, 0), transaction_type = DEPOSIT, amount = 100,
          description = [], timestamp = 11, balance_after = 100\<rparr>,
         \<lparr>tx_account = (Savings, 0), transaction_type = DEPOSIT, amount = 100,
          description = [], timestamp = 12, balance_after = 200\<rparr>,
         \<lparr>tx_account = (Savings, 0), transaction_type = DEPOSIT, amount = 100,
          description = [], timestamp = 13, balance_after = 300\<rparr>,
         \<lparr>tx_account = (Savings, 0), transaction_type = DEPOSIT, amount = 100,
          description = [], timestamp = 14, balance_after = 400\<rparr>,
         \<lparr>tx_account = (Savings, 0), transaction_type = DEPOSIT, amount = 100,
          description = [], timestamp = 15, balance_after = 500\<rparr>,
         \<lparr>tx_account = (Savings, 0), transaction_type = DEPOSIT, amount = 100,
          description = [], timestamp = 16, balance_after = 600\<rparr>]\<rparr>"

section \<open>Sequences of ledger requests\<close>

text \<open>
  The account with the given key is a row of the store and has at least its variant's
  minimum balance.
\<close>

definition account_floor_ok :: "(kind \<Rightarrow> int) \<Rightarrow> account_ref \<Rightarrow> db \<Rightarrow> bool" where
  "account_floor_ok mb r d =
     (snd r < length (table (fst r) d) \<and> mb (fst r) \<le> balance (table (fst r) d ! snd r))"




section \<open>Facts about the store and the methods\<close>

subsection \<open>Queries\<close>

lemma objects_all_nth:
  "i < length (table k d) \<Longrightarrow> objects_all k d ! i = ((k, i), table k d ! i)"
  by (simp add: objects_all_def nth_enumerate_eq)

lemma length_objects_all: "length (objects_all k d) = length (table k d)"
  by (simp add: objects_all_def)

lemma objects_all_mem:
  "obj \<in> set (objects_all k d) \<longleftrightarrow>
     fst (fst obj) = k \<and> snd (fst obj) < length (table k d)
     \<and> snd obj = table k d ! snd (fst obj)"
proof -
  have "obj \<in> set (objects_all k d) \<longleftrightarrow> (\<exists>i < length (table k d). ((k, i), table k d ! i) = obj)"
    by (auto simp: in_set_conv_nth length_objects_all objects_all_nth)
  then show ?thesis by (cases obj) auto
qed

lemma map_snd_objects_all: "map snd (objects_all k d) = table k d"
  by (simp add: objects_all_def comp_def case_prod_unfold map_snd_enumerate)

lemma map_snd_objects_filter: "map snd (objects_filter k P d) = filter P (table k d)"
proof -
  have "map snd (filter (\<lambda>obj. P (snd obj)) xs) = filter P (map snd xs)" for xs :: "account_obj list"
    by (induction xs) auto
  then show ?thesis
    by (simp add: objects_filter_def map_snd_objects_all)
qed

lemma filter_single_mem:
  assumes "filter Q ys = [x]"
  shows "x \<in> set ys \<and> Q x \<and> (\<forall>y \<in> set ys. Q y \<longrightarrow> y = x)"
proof -
  have s: "set (filter Q ys) = {x}" using assms by simp
  then have "x \<in> set (filter Q ys)" by simp
  moreover have "\<forall>y \<in> set ys. Q y \<longrightarrow> y = x"
  proof (intro ballI impI)
    fix y assume "y \<in> set ys" "Q y"
    then have "y \<in> set (filter Q ys)" by simp
    with s show "y = x" by simp
  qed
  ultimately show ?thesis by simp
qed

lemma objects_get_Inr:
  assumes "objects_get k P d = Inr obj"
  shows "fst (fst obj) = k" and "snd (fst obj) < length (table k d)"
    and "snd obj = table k d ! snd (fst obj)" and "P (snd obj)"
    and "\<forall>j < length (table k d). P (table k d ! j) \<longrightarrow> j = snd (fst obj)"
proof -
  from assms have f: "filter (\<lambda>obj. P (snd obj)) (objects_all k d) = [obj]"
    by (auto simp: objects_get_def objects_filter_def split: list.splits)
  note m = filter_single_mem [OF f]
  from m have mem: "obj \<in> set (objects_all k d)" by simp
  then show "fst (fst obj) = k" and "snd (fst obj) < length (table k d)"
    and "snd obj = table k d ! snd (fst obj)"
    by (simp_all add: objects_all_mem)
  from m show "P (snd obj)" by simp
  show "\<forall>j < length (table k d). P (table k d ! j) \<longrightarrow> j = snd (fst obj)"
  proof (intro allI impI)
    fix j assume j: "j < length (table k d)" and p: "P (table k d ! j)"
    have "((k, j), table k d ! j) \<in> set (objects_all k d)"
      using j by (simp add: objects_all_mem)
    with m p have "((k, j), table k d ! j) = obj" by auto
    then show "j = snd (fst obj)" by auto
  qed
qed

lemma objects_get_DoesNotExist:
  "objects_get k P d = Inl DoesNotExist \<longleftrightarrow> (\<forall>a \<in> set (table k d). \<not> P a)"
proof -
  have "objects_get k P d = Inl DoesNotExist \<longleftrightarrow> objects_filter k P d = []"
    by (auto simp: objects_get_def split: list.splits)
  also have "\<dots> \<longleftrightarrow> map snd (objects_filter k P d) = []" by simp
  also have "\<dots> \<longleftrightarrow> (\<forall>a \<in> set (table k d). \<not> P a)"
    by (simp add: map_snd_objects_filter filter_empty_conv)
  finally show ?thesis .
qed

lemma objects_get_errors:
  "objects_get k P d = Inl e \<Longrightarrow> e = DoesNotExist \<or> e = MultipleObjectsReturned"
  by (auto simp: objects_get_def split: list.splits)

text \<open>With account numbers unique within a table, a query that fixes the number finds at most one row.\<close>

lemma filter_number_le_one:
  assumes "distinct (map account_number xs)" and "\<And>a. P a \<Longrightarrow> account_number a = n"
  shows "length (filter P xs) \<le> 1"
  using assms(1)
proof (induction xs)
  case Nil
  then show ?case by simp
next
  case (Cons x xs)
  show ?case
  proof (cases "P x")
    case True
    have "filter P xs = []"
    proof (rule ccontr)
      assume "filter P xs \<noteq> []"
      then obtain y where "y \<in> set xs" "P y" by (auto simp: filter_empty_conv)
      with True assms(2) have "account_number x \<in> account_number ` set xs" by force
      with Cons.prems show False by simp
    qed
    with True show ?thesis by simp
  next
    case False
    with Cons show ?thesis by simp
  qed
qed

lemma objects_get_not_multiple:
  assumes "distinct (map account_number (table k d))" and "\<And>a. P a \<Longrightarrow> account_number a = n"
  shows "objects_get k P d \<noteq> Inl MultipleObjectsReturned"
proof -
  have "length (map snd (objects_filter k P d)) \<le> 1"
    unfolding map_snd_objects_filter using assms by (rule filter_number_le_one)
  then have "length (objects_filter k P d) \<le> 1" by simp
  then show ?thesis
    by (auto simp: objects_get_def split: list.splits)
qed

subsection \<open>Writes\<close>

lemma table_save_account:
  "table k (save_account obj d) =
     (if k = fst (fst obj) then (table k d)[snd (fst obj) := snd obj] else table k d)"
  by (cases k; cases "fst (fst obj)") (simp_all add: table_def save_account_def)

lemma transactions_save_account [simp]: "transactions (save_account obj d) = transactions d"
  by (cases "fst (fst obj)") (simp_all add: save_account_def)

lemma table_create_transaction [simp]: "table k (create_transaction t d) = table k d"
  by (cases k) (simp_all add: table_def create_transaction_def)

lemma transactions_create_transaction [simp]:
  "transactions (create_transaction t d) = transactions d @ [t]"
  by (simp add: create_transaction_def)

lemma table_save_transaction [simp]: "table k (save_transaction i t d) = table k d"
  by (cases k) (simp_all add: table_def save_transaction_def)

lemma transactions_save_transaction [simp]:
  "transactions (save_transaction i t d) = (transactions d)[i := t]"
  by (simp add: save_transaction_def)

lemma db_eqI:
  "savings d = savings d' \<Longrightarrow> current d = current d' \<Longrightarrow> transactions d = transactions d'
   \<Longrightarrow> (d :: db) = d'"
  by simp

subsection \<open>deposit and withdraw\<close>

lemma deposit_Inl: "fst (deposit now amt obj d) = Inl e \<Longrightarrow> deposit now amt obj d = (Inl InvalidAmount, d) \<and> amt \<le> 0"
  by (auto simp: deposit_def Let_def split: if_splits)

lemma deposit_Inr:
  "0 < amt \<Longrightarrow>
   deposit now amt obj d =
     (Inr (fst obj, (snd obj)\<lparr>balance := balance (snd obj) + amt\<rparr>),
      create_transaction
        \<lparr>tx_account = fst obj, transaction_type = DEPOSIT, amount = amt, description = [],
         timestamp = now, balance_after = balance (snd obj) + amt\<rparr>
        (save_account (fst obj, (snd obj)\<lparr>balance := balance (snd obj) + amt\<rparr>) d))"
  by (simp add: deposit_def Let_def)

lemma withdraw_Inl:
  "fst (withdraw mb now amt obj d) = Inl e \<Longrightarrow>
     withdraw mb now amt obj d = (Inl e, d) \<and> is_ValueError e
     \<and> (amt \<le> 0 \<or> balance (snd obj) - amt < mb (fst (fst obj)))"
  by (auto simp: withdraw_def Let_def is_ValueError_def get_minimum_balance_def split: if_splits)

lemma withdraw_Inr:
  "0 < amt \<Longrightarrow> mb (fst (fst obj)) \<le> balance (snd obj) - amt \<Longrightarrow>
   withdraw mb now amt obj d =
     (Inr (fst obj, (snd obj)\<lparr>balance := balance (snd obj) - amt\<rparr>),
      create_transaction
        \<lparr>tx_account = fst obj, transaction_type = WITHDRAWAL, amount = amt, description = [],
         timestamp = now, balance_after = balance (snd obj) - amt\<rparr>
        (save_account (fst obj, (snd obj)\<lparr>balance := balance (snd obj) - amt\<rparr>) d))"
  by (simp add: withdraw_def Let_def get_minimum_balance_def)

lemma withdraw_Inr_iff:
  "(\<exists>obj'. fst (withdraw mb now amt obj d) = Inr obj') \<longleftrightarrow>
     0 < amt \<and> mb (fst (fst obj)) \<le> balance (snd obj) - amt"
  by (auto simp: withdraw_def Let_def get_minimum_balance_def split: if_splits)

subsection \<open>latest\<close>

lemma latest_of_None: "latest_of xs = None \<longleftrightarrow> xs = []"
  by (induction xs) (auto split: option.splits)

lemma latest_of_Some:
  "latest_of xs = Some y \<Longrightarrow>
     y \<in> set xs \<and> (\<forall>x \<in> set xs. timestamp (snd x) \<le> timestamp (snd y))"
proof (induction xs arbitrary: y)
  case Nil
  then show ?case by simp
next
  case (Cons x xs)
  show ?case
  proof (cases "latest_of xs")
    case None
    with Cons.prems have "y = x" and "xs = []" by (simp_all add: latest_of_None)
    then show ?thesis by simp
  next
    case (Some z)
    from Cons.IH [OF Some] have z: "z \<in> set xs" "\<forall>x \<in> set xs. timestamp (snd x) \<le> timestamp (snd z)"
      by simp_all
    show ?thesis
    proof (cases "timestamp (snd x) < timestamp (snd z)")
      case True
      with Some Cons.prems have "y = z" by simp
      with z True show ?thesis by auto
    next
      case False
      with Some Cons.prems have "y = x" by simp
      with z False show ?thesis by fastforce
    qed
  qed
qed

lemma account_transactions_mem:
  "it \<in> set (account_transactions r d) \<longleftrightarrow>
     fst it < length (transactions d) \<and> snd it = transactions d ! fst it \<and> tx_account (snd it) = r"
  by (cases it) (auto simp: account_transactions_def in_set_enumerate_eq)

lemma latest_Inr:
  assumes "latest r d = Inr (i, t)"
  shows "i < length (transactions d)" and "transactions d ! i = t" and "tx_account t = r"
    and "\<forall>k < length (transactions d). tx_account (transactions d ! k) = r \<longrightarrow>
           timestamp (transactions d ! k) \<le> timestamp t"
proof -
  from assms have s: "latest_of (account_transactions r d) = Some (i, t)"
    by (simp add: latest_def split: option.splits)
  note p = latest_of_Some [OF s]
  from p have "(i, t) \<in> set (account_transactions r d)" by simp
  then show "i < length (transactions d)" and "transactions d ! i = t" and "tx_account t = r"
    by (auto simp: account_transactions_mem)
  show "\<forall>k < length (transactions d). tx_account (transactions d ! k) = r \<longrightarrow>
           timestamp (transactions d ! k) \<le> timestamp t"
  proof (intro allI impI)
    fix k assume "k < length (transactions d)" "tx_account (transactions d ! k) = r"
    then have "(k, transactions d ! k) \<in> set (account_transactions r d)"
      by (simp add: account_transactions_mem)
    with p show "timestamp (transactions d ! k) \<le> timestamp t" by fastforce
  qed
qed

lemma latest_Inl: "latest r d = Inl e \<Longrightarrow> e = DoesNotExist \<and> (\<forall>t \<in> set (transactions d). tx_account t \<noteq> r)"
proof -
  assume "latest r d = Inl e"
  then have e: "e = DoesNotExist" and "latest_of (account_transactions r d) = None"
    by (auto simp: latest_def split: option.splits)
  then have n: "account_transactions r d = []" by (simp add: latest_of_None)
  have "\<forall>t \<in> set (transactions d). tx_account t \<noteq> r"
  proof
    fix t assume "t \<in> set (transactions d)"
    then obtain k where k: "k < length (transactions d)" "transactions d ! k = t"
      by (auto simp: in_set_conv_nth)
    show "tx_account t \<noteq> r"
    proof
      assume "tx_account t = r"
      with k have "(k, t) \<in> set (account_transactions r d)"
        by (simp add: account_transactions_mem)
      with n show False by simp
    qed
  qed
  with e show ?thesis by simp
qed

lemma latest_exists:
  assumes "k < length (transactions d)" and "tx_account (transactions d ! k) = r"
  shows "\<exists>i t. latest r d = Inr (i, t)"
proof (cases "latest r d")
  case (Inl e)
  from latest_Inl [OF Inl] have "\<forall>t \<in> set (transactions d). tx_account t \<noteq> r" by simp
  moreover from assms(1) have "transactions d ! k \<in> set (transactions d)" by simp
  ultimately show ?thesis using assms(2) by blast
next
  case (Inr it)
  then show ?thesis by (cases it) simp
qed

subsection \<open>The atomic block and the body of a transfer\<close>

lemma atomic_Inl: "fst (atomic body d) = Inl e \<Longrightarrow> snd (atomic body d) = d"
  by (auto simp: atomic_def split: prod.splits sum.splits)

lemma atomic_Inl_iff: "fst (atomic body d) = Inl e \<longleftrightarrow> fst (body d) = Inl e"
  by (auto simp: atomic_def split: prod.splits sum.splits)

lemma atomic_Inr: "body d = (Inr x, d') \<Longrightarrow> atomic body d = (Inr x, d')"
  by (simp add: atomic_def)

lemma transfer_money_unchanged:
  "fst (transfer_money mb user n now_w now_d req d) \<noteq> Success \<Longrightarrow>
   snd (transfer_money mb user n now_w now_d req d) = d"
  by (auto simp: transfer_money_def atomic_def Let_def
      split: sum.splits error.splits request.splits prod.splits)

lemma transfer_money_post:
  assumes "get_own_account user n d = Inr f" and "get_recipient_account to d = Inr t"
  shows "transfer_money mb user n now_w now_d (POST_valid (to, amt, descr_opt)) d =
     (case atomic (transfer_body mb now_w now_d f t n to
                     (case descr_opt of None \<Rightarrow> ''Fund Transfer'' | Some s \<Rightarrow> s) amt) d of
        (Inr _, d') \<Rightarrow> (Success, d')
      | (Inl e, d') \<Rightarrow> (if is_ValueError e then Rejected e else Failed e, d'))"
  using assms by (simp add: transfer_money_def)

lemma transfer_body_withdraw_Inl:
  "fst (withdraw mb now_w amt f d) = Inl e \<Longrightarrow>
   transfer_body mb now_w now_d f t fn tn descr amt d = (Inl e, d)"
  by (frule withdraw_Inl) (simp add: transfer_body_def)

lemma relabel_Inr:
  assumes "relabel fr tr fn tn descr d = (Inr u, d')"
  shows "\<exists>i j. i < length (transactions d) \<and> j < length (transactions d)
           \<and> latest fr d = Inr (i, transactions d ! i)
           \<and> latest tr (save_transaction i (label_out tn descr (transactions d ! i)) d)
               = Inr (j, (transactions d)[i := label_out tn descr (transactions d ! i)] ! j)
           \<and> transactions d' =
               (transactions d)
                 [i := label_out tn descr (transactions d ! i),
                  j := label_in fn descr
                         ((transactions d)[i := label_out tn descr (transactions d ! i)] ! j)]
           \<and> savings d' = savings d \<and> current d' = current d"
proof -
  from assms obtain i lw where l1: "latest fr d = Inr (i, lw)"
    by (cases "latest fr d") (auto simp: relabel_def)
  define d1 where "d1 = save_transaction i (label_out tn descr lw) d"
  from assms l1 obtain j ld where l2: "latest tr d1 = Inr (j, ld)"
    by (cases "latest tr d1") (auto simp: relabel_def Let_def d1_def label_out_def)
  from assms l1 l2 have d': "d' = save_transaction j (label_in fn descr ld) d1"
    by (simp add: relabel_def Let_def d1_def label_out_def label_in_def)
  note p1 = latest_Inr [OF l1]
  note p2 = latest_Inr [OF l2]
  from p1 have lw: "lw = transactions d ! i" by simp
  have t1: "transactions d1 = (transactions d)[i := label_out tn descr (transactions d ! i)]"
    by (simp add: d1_def lw)
  from p2 have ld: "ld = (transactions d)[i := label_out tn descr (transactions d ! i)] ! j"
    by (simp add: t1)
  from p2 t1 have j: "j < length (transactions d)" by simp
  have s: "savings d' = savings d" "current d' = current d"
    by (simp_all add: d' d1_def save_transaction_def)
  have t': "transactions d' = (transactions d)
                 [i := label_out tn descr (transactions d ! i),
                  j := label_in fn descr
                         ((transactions d)[i := label_out tn descr (transactions d ! i)] ! j)]"
    by (simp add: d' t1 ld)
  have a: "latest fr d = Inr (i, transactions d ! i)" using l1 lw by simp
  have b: "latest tr (save_transaction i (label_out tn descr (transactions d ! i)) d)
               = Inr (j, (transactions d)[i := label_out tn descr (transactions d ! i)] ! j)"
    using l2 ld by (simp add: d1_def lw)
  show ?thesis
    apply (rule exI [of _ i])
    apply (rule exI [of _ j])
    using p1(1) j a b t' s by simp
qed

lemma relabel_succeeds:
  assumes "k < length (transactions d)" and "tx_account (transactions d ! k) = fr"
    and "k' < length (transactions d)" and "tx_account (transactions d ! k') = tr"
  shows "\<exists>d'. relabel fr tr fn tn descr d = (Inr (), d')"
proof -
  from latest_exists [OF assms(1,2)] obtain i lw where l1: "latest fr d = Inr (i, lw)" by blast
  define d1 where "d1 = save_transaction i
     (label_out tn descr lw) d"
  note p1 = latest_Inr [OF l1]
  have "k' < length (transactions d1)" using assms(3) by (simp add: d1_def)
  moreover have "tx_account (transactions d1 ! k') = tr"
    using assms(3,4) p1 by (cases "k' = i") (auto simp: d1_def label_out_def)
  ultimately obtain j ld where l2: "latest tr d1 = Inr (j, ld)"
    using latest_exists by blast
  from l1 l2 show ?thesis by (simp add: relabel_def Let_def d1_def label_out_def)
qed

lemma transfer_body_succeeds:
  assumes "0 < amt" and "mb (fst (fst f)) \<le> balance (snd f) - amt"
  shows "\<exists>d'. transfer_body mb now_w now_d f t fn tn descr amt d = (Inr (), d')"
proof -
  let ?f' = "(fst f, (snd f)\<lparr>balance := balance (snd f) - amt\<rparr>)"
  let ?t' = "(fst t, (snd t)\<lparr>balance := balance (snd t) + amt\<rparr>)"
  let ?d2 = "before_relabel mb now_w now_d amt f t d"
  have w: "withdraw mb now_w amt f d = (Inr ?f', snd (withdraw mb now_w amt f d))"
    using withdraw_Inr [where amt=amt and mb=mb and obj=f, OF assms] by simp
  have dp: "deposit now_d amt t (snd (withdraw mb now_w amt f d)) = (Inr ?t', ?d2)"
    using deposit_Inr [OF assms(1)] by (simp add: before_relabel_def)
  have tx: "transactions ?d2 = transactions d @
      [\<lparr>tx_account = fst f, transaction_type = WITHDRAWAL, amount = amt, description = [],
        timestamp = now_w, balance_after = balance (snd f) - amt\<rparr>,
       \<lparr>tx_account = fst t, transaction_type = DEPOSIT, amount = amt, description = [],
        timestamp = now_d, balance_after = balance (snd t) + amt\<rparr>]"
    by (simp add: before_relabel_def withdraw_Inr [where amt=amt and mb=mb and obj=f, OF assms] deposit_Inr [OF assms(1)])
  have "\<exists>d'. relabel (fst f) (fst t) fn tn descr ?d2 = (Inr (), d')"
  proof (rule relabel_succeeds)
    show "length (transactions d) < length (transactions ?d2)" by (simp add: tx)
    show "tx_account (transactions ?d2 ! length (transactions d)) = fst f" by (simp add: tx)
    show "Suc (length (transactions d)) < length (transactions ?d2)" by (simp add: tx)
    show "tx_account (transactions ?d2 ! Suc (length (transactions d))) = fst t"
      by (simp add: tx nth_append)
  qed
  then obtain d' where "relabel (fst f) (fst t) fn tn descr ?d2 = (Inr (), d')" by blast
  then have "transfer_body mb now_w now_d f t fn tn descr amt d = (Inr (), d')"
    unfolding transfer_body_def by (subst w, simp, subst dp, simp)
  then show ?thesis by blast
qed

lemma transfer_body_Inr:
  assumes "transfer_body mb now_w now_d f t fn tn descr amt d = (Inr u, d')"
  shows "0 < amt" and "mb (fst (fst f)) \<le> balance (snd f) - amt"
    and "relabel (fst f) (fst t) fn tn descr (before_relabel mb now_w now_d amt f t d) = (Inr u, d')"
proof -
  from assms obtain f' where w: "fst (withdraw mb now_w amt f d) = Inr f'"
    by (cases "withdraw mb now_w amt f d"; cases "fst (withdraw mb now_w amt f d)")
       (auto simp: transfer_body_def)
  then have c: "0 < amt \<and> mb (fst (fst f)) \<le> balance (snd f) - amt"
    using withdraw_Inr_iff by blast
  then show "0 < amt" and "mb (fst (fst f)) \<le> balance (snd f) - amt" by simp_all
  from c have w': "withdraw mb now_w amt f d
      = (Inr (fst f, (snd f)\<lparr>balance := balance (snd f) - amt\<rparr>), snd (withdraw mb now_w amt f d))"
    using withdraw_Inr [of amt mb f now_w d] by simp
  from c have dp: "deposit now_d amt t (snd (withdraw mb now_w amt f d))
      = (Inr (fst t, (snd t)\<lparr>balance := balance (snd t) + amt\<rparr>), before_relabel mb now_w now_d amt f t d)"
    using deposit_Inr [of amt now_d t] by (simp add: before_relabel_def)
  from assms show "relabel (fst f) (fst t) fn tn descr (before_relabel mb now_w now_d amt f t d) = (Inr u, d')"
    unfolding transfer_body_def by (subst (asm) w', simp, subst (asm) dp, simp)
qed

subsection \<open>The view of a transfer\<close>

text \<open>The definitions that a call on a concrete store unfolds.\<close>

lemmas eval_defs = transfer_money_def get_own_account_def get_recipient_account_def
  objects_get_def objects_filter_def objects_all_def objects_create_def table_def deposit_def
  withdraw_def save_account_def create_transaction_def atomic_def transfer_body_def relabel_def
  latest_def account_transactions_def save_transaction_def get_minimum_balance_def
  is_ValueError_def Let_def

lemma transfer_money_succeeds:
  assumes "get_own_account user n d = Inr f" and "get_recipient_account to d = Inr t"
    and "0 < amt" and "mb (fst (fst f)) \<le> balance (snd f) - amt"
  shows "\<exists>d'. transfer_money mb user n now_w now_d (POST_valid (to, amt, descr_opt)) d = (Success, d')
     \<and> transfer_body mb now_w now_d f t n to
         (case descr_opt of None \<Rightarrow> ''Fund Transfer'' | Some s \<Rightarrow> s) amt d = (Inr (), d')"
proof -
  from transfer_body_succeeds [where mb=mb and f=f and amt=amt, OF assms(3,4)] obtain d' where
    b: "transfer_body mb now_w now_d f t n to
         (case descr_opt of None \<Rightarrow> ''Fund Transfer'' | Some s \<Rightarrow> s) amt d = (Inr (), d')"
    by blast
  then have "transfer_money mb user n now_w now_d (POST_valid (to, amt, descr_opt)) d = (Success, d')"
    using assms(1,2) by (simp add: transfer_money_post atomic_Inr)
  with b show ?thesis by blast
qed

lemma transfer_money_Success:
  assumes "transfer_money mb user n now_w now_d req d = (Success, d')"
  shows "\<exists>f t to amt descr_opt. req = POST_valid (to, amt, descr_opt)
     \<and> get_own_account user n d = Inr f \<and> get_recipient_account to d = Inr t
     \<and> transfer_body mb now_w now_d f t n to
         (case descr_opt of None \<Rightarrow> ''Fund Transfer'' | Some s \<Rightarrow> s) amt d = (Inr (), d')"
  using assms
  by (auto simp: transfer_money_def atomic_def Let_def
      split: sum.splits error.splits request.splits prod.splits if_splits)

subsection \<open>The two lookups\<close>

lemma probe_Inr:
  assumes "(case objects_get Savings P d of
              Inr obj \<Rightarrow> Inr obj
            | Inl DoesNotExist \<Rightarrow> objects_get Current P d
            | Inl e \<Rightarrow> Inl e) = Inr obj"
  shows "snd (fst obj) < length (table (fst (fst obj)) d)"
    and "snd obj = table (fst (fst obj)) d ! snd (fst obj)"
    and "P (snd obj)"
    and "\<forall>j < length (table (fst (fst obj)) d). P (table (fst (fst obj)) d ! j) \<longrightarrow> j = snd (fst obj)"
    and "fst (fst obj) = Current \<longrightarrow> (\<forall>a \<in> set (savings d). \<not> P a)"
proof -
  have "(objects_get Savings P d = Inr obj)
      \<or> (objects_get Savings P d = Inl DoesNotExist \<and> objects_get Current P d = Inr obj)"
    using assms by (auto split: sum.splits error.splits)
  then consider (sav) "objects_get Savings P d = Inr obj"
    | (cur) "objects_get Savings P d = Inl DoesNotExist" "objects_get Current P d = Inr obj"
    by blast
  then have "snd (fst obj) < length (table (fst (fst obj)) d)
    \<and> snd obj = table (fst (fst obj)) d ! snd (fst obj)
    \<and> P (snd obj)
    \<and> (\<forall>j < length (table (fst (fst obj)) d). P (table (fst (fst obj)) d ! j) \<longrightarrow> j = snd (fst obj))
    \<and> (fst (fst obj) = Current \<longrightarrow> (\<forall>a \<in> set (savings d). \<not> P a))"
  proof cases
    case sav
    note r = objects_get_Inr [OF sav]
    have k: "fst (fst obj) = Savings" by (rule r(1))
    show ?thesis
      unfolding k
      apply (intro conjI)
          apply (rule r(2))
         apply (rule r(3))
        apply (rule r(4))
       apply (rule r(5))
      apply simp
      done
  next
    case cur
    note r = objects_get_Inr [OF cur(2)]
    have k: "fst (fst obj) = Current" by (rule r(1))
    have n: "\<forall>a \<in> set (savings d). \<not> P a"
      using cur(1) by (simp add: objects_get_DoesNotExist table_def)
    show ?thesis
      unfolding k
      apply (intro conjI)
          apply (rule r(2))
         apply (rule r(3))
        apply (rule r(4))
       apply (rule r(5))
      apply (rule impI)
      apply (rule n)
      done
  qed
  then show "snd (fst obj) < length (table (fst (fst obj)) d)"
    and "snd obj = table (fst (fst obj)) d ! snd (fst obj)"
    and "P (snd obj)"
    and "\<forall>j < length (table (fst (fst obj)) d). P (table (fst (fst obj)) d ! j) \<longrightarrow> j = snd (fst obj)"
    and "fst (fst obj) = Current \<longrightarrow> (\<forall>a \<in> set (savings d). \<not> P a)"
    by blast+
qed

lemma probe_DoesNotExist:
  "(case objects_get Savings P d of
      Inr obj \<Rightarrow> Inr obj
    | Inl DoesNotExist \<Rightarrow> objects_get Current P d
    | Inl e \<Rightarrow> Inl e) = Inl DoesNotExist
   \<longleftrightarrow> (\<forall>a \<in> set (savings d) \<union> set (current d). \<not> P a)"
proof -
  have "(case objects_get Savings P d of
      Inr obj \<Rightarrow> Inr obj
    | Inl DoesNotExist \<Rightarrow> objects_get Current P d
    | Inl e \<Rightarrow> Inl e) = Inl DoesNotExist
    \<longleftrightarrow> objects_get Savings P d = Inl DoesNotExist \<and> objects_get Current P d = Inl DoesNotExist"
    by (auto split: sum.splits error.splits)
  then show ?thesis
    by (auto simp: objects_get_DoesNotExist table_def)
qed

lemma probe_errors:
  assumes "(case objects_get Savings P d of
      Inr obj \<Rightarrow> Inr obj
    | Inl DoesNotExist \<Rightarrow> objects_get Current P d
    | Inl e \<Rightarrow> Inl e) = Inl e"
  shows "e = DoesNotExist \<or> e = MultipleObjectsReturned"
proof (cases "objects_get Savings P d")
  case (Inl e')
  with objects_get_errors [OF Inl] assms objects_get_errors [of Current P d e]
  show ?thesis by auto
next
  case (Inr obj)
  with assms show ?thesis by simp
qed

lemma probe_not_multiple:
  assumes "distinct (map account_number (savings d))" and "distinct (map account_number (current d))"
    and "\<And>a. P a \<Longrightarrow> account_number a = n"
  shows "(case objects_get Savings P d of
      Inr obj \<Rightarrow> Inr obj
    | Inl DoesNotExist \<Rightarrow> objects_get Current P d
    | Inl e \<Rightarrow> Inl e) \<noteq> Inl MultipleObjectsReturned"
proof -
  have "objects_get Savings P d \<noteq> Inl MultipleObjectsReturned"
    by (rule objects_get_not_multiple [where n = n]) (simp_all add: table_def assms)
  moreover have "objects_get Current P d \<noteq> Inl MultipleObjectsReturned"
    by (rule objects_get_not_multiple [where n = n]) (simp_all add: table_def assms)
  ultimately show ?thesis
    by (auto split: sum.splits error.splits)
qed

lemmas get_own_account_Inr = probe_Inr [where P = "\<lambda>a. account_number a = n \<and> customer a = u \<and> is_active a" for n u, folded get_own_account_def]
lemmas get_recipient_account_Inr = probe_Inr [where P = "\<lambda>a. account_number a = n \<and> is_active a" for n, folded get_recipient_account_def]

subsection \<open>The accounts after a transfer\<close>

lemma table_before_relabel:
  assumes "0 < amt" and "mb (fst (fst f)) \<le> balance (snd f) - amt"
  shows "table k (before_relabel mb now_w now_d amt f t d) =
     table k (save_account (fst t, (snd t)\<lparr>balance := balance (snd t) + amt\<rparr>)
               (save_account (fst f, (snd f)\<lparr>balance := balance (snd f) - amt\<rparr>) d))"
    and "transactions (before_relabel mb now_w now_d amt f t d) = transactions d @
      [\<lparr>tx_account = fst f, transaction_type = WITHDRAWAL, amount = amt, description = [],
        timestamp = now_w, balance_after = balance (snd f) - amt\<rparr>,
       \<lparr>tx_account = fst t, transaction_type = DEPOSIT, amount = amt, description = [],
        timestamp = now_d, balance_after = balance (snd t) + amt\<rparr>]"
  by (simp_all add: before_relabel_def table_save_account
      withdraw_Inr [where amt=amt and mb=mb and obj=f, OF assms] deposit_Inr [OF assms(1)])

lemma table_eq: "savings d = savings d' \<Longrightarrow> current d = current d' \<Longrightarrow> table k d = table k d'"
  by (cases k) (simp_all add: table_def)

subsection \<open>What the relabelling changes\<close>

lemma label_out_fields [simp]:
  "tx_account (label_out tn descr t) = tx_account t"
  "amount (label_out tn descr t) = amount t"
  "timestamp (label_out tn descr t) = timestamp t"
  "balance_after (label_out tn descr t) = balance_after t"
  "transaction_type (label_out tn descr t) = TRANSFER_OUT"
  "description (label_out tn descr t) = ''Transfer to '' @ tn @ '': '' @ descr"
  by (simp_all add: label_out_def)

lemma label_in_fields [simp]:
  "tx_account (label_in fn descr t) = tx_account t"
  "amount (label_in fn descr t) = amount t"
  "timestamp (label_in fn descr t) = timestamp t"
  "balance_after (label_in fn descr t) = balance_after t"
  "transaction_type (label_in fn descr t) = TRANSFER_IN"
  "description (label_in fn descr t) = ''Transfer from '' @ fn @ '': '' @ descr"
  by (simp_all add: label_in_def)

lemma relabelled_list:
  assumes "i < length xs" and "j < length xs"
    and "ys = xs[i := label_out tn descr (xs ! i),
                 j := label_in fn descr (xs[i := label_out tn descr (xs ! i)] ! j)]"
  shows "length ys = length xs"
    and "\<forall>k < length xs. k \<noteq> i \<and> k \<noteq> j \<longrightarrow> ys ! k = xs ! k"
    and "\<forall>k < length xs. tx_account (ys ! k) = tx_account (xs ! k)
            \<and> amount (ys ! k) = amount (xs ! k)
            \<and> timestamp (ys ! k) = timestamp (xs ! k)
            \<and> balance_after (ys ! k) = balance_after (xs ! k)"
    and "transaction_type (ys ! j) = TRANSFER_IN
          \<and> description (ys ! j) = ''Transfer from '' @ fn @ '': '' @ descr"
    and "i \<noteq> j \<longrightarrow> transaction_type (ys ! i) = TRANSFER_OUT
          \<and> description (ys ! i) = ''Transfer to '' @ tn @ '': '' @ descr"
proof -
  show "length ys = length xs" by (simp add: assms(3))
  show "\<forall>k < length xs. k \<noteq> i \<and> k \<noteq> j \<longrightarrow> ys ! k = xs ! k"
    by (simp add: assms(3))
  show "\<forall>k < length xs. tx_account (ys ! k) = tx_account (xs ! k)
            \<and> amount (ys ! k) = amount (xs ! k)
            \<and> timestamp (ys ! k) = timestamp (xs ! k)
            \<and> balance_after (ys ! k) = balance_after (xs ! k)"
  proof (intro allI impI)
    fix k assume k: "k < length xs"
    show "tx_account (ys ! k) = tx_account (xs ! k)
            \<and> amount (ys ! k) = amount (xs ! k)
            \<and> timestamp (ys ! k) = timestamp (xs ! k)
            \<and> balance_after (ys ! k) = balance_after (xs ! k)"
      using k assms(1,2) by (cases "k = j"; cases "k = i") (simp_all add: assms(3))
  qed
  show "transaction_type (ys ! j) = TRANSFER_IN
          \<and> description (ys ! j) = ''Transfer from '' @ fn @ '': '' @ descr"
    using assms(2) by (simp add: assms(3))
  show "i \<noteq> j \<longrightarrow> transaction_type (ys ! i) = TRANSFER_OUT
          \<and> description (ys ! i) = ''Transfer to '' @ tn @ '': '' @ descr"
    using assms(1) by (simp add: assms(3))
qed

lemma relabel_frame:
  assumes "relabel fr tr fn tn descr d = (Inr u, d')"
  shows "\<exists>i j. i < length (transactions d) \<and> j < length (transactions d)
     \<and> tx_account (transactions d ! i) = fr \<and> tx_account (transactions d ! j) = tr
     \<and> (\<forall>k < length (transactions d). tx_account (transactions d ! k) = fr \<longrightarrow>
           timestamp (transactions d ! k) \<le> timestamp (transactions d ! i))
     \<and> (\<forall>k < length (transactions d). tx_account (transactions d ! k) = tr \<longrightarrow>
           timestamp (transactions d ! k) \<le> timestamp (transactions d ! j))
     \<and> transactions d' =
          (transactions d)
            [i := label_out tn descr (transactions d ! i),
             j := label_in fn descr
                    ((transactions d)[i := label_out tn descr (transactions d ! i)] ! j)]
     \<and> savings d' = savings d \<and> current d' = current d"
proof -
  let ?xs = "transactions d"
  from relabel_Inr [OF assms] obtain i j where
    i: "i < length ?xs" and j: "j < length ?xs"
    and l1: "latest fr d = Inr (i, ?xs ! i)"
    and l2: "latest tr (save_transaction i (label_out tn descr (?xs ! i)) d)
               = Inr (j, ?xs[i := label_out tn descr (?xs ! i)] ! j)"
    and t': "transactions d' =
               ?xs[i := label_out tn descr (?xs ! i),
                   j := label_in fn descr (?xs[i := label_out tn descr (?xs ! i)] ! j)]"
    and s: "savings d' = savings d" "current d' = current d"
    by blast
  let ?ys = "?xs[i := label_out tn descr (?xs ! i)]"
  have same: "tx_account (?ys ! k) = tx_account (?xs ! k) \<and> timestamp (?ys ! k) = timestamp (?xs ! k)"
    if "k < length ?xs" for k
    using that by (cases "k = i") simp_all
  note p1 = latest_Inr [OF l1]
  note p2 = latest_Inr [OF l2]
  have a1: "tx_account (?xs ! i) = fr" using p1(3) .
  have a2: "tx_account (?xs ! j) = tr" using p2(3) same [OF j] by simp
  have m1: "\<forall>k < length ?xs. tx_account (?xs ! k) = fr \<longrightarrow> timestamp (?xs ! k) \<le> timestamp (?xs ! i)"
    using p1(4) .
  have m2: "\<forall>k < length ?xs. tx_account (?xs ! k) = tr \<longrightarrow> timestamp (?xs ! k) \<le> timestamp (?xs ! j)"
  proof (intro allI impI)
    fix k assume k: "k < length ?xs" and r: "tx_account (?xs ! k) = tr"
    from k have "k < length (transactions (save_transaction i (label_out tn descr (?xs ! i)) d))"
      by simp
    moreover from k r have "tx_account (transactions (save_transaction i (label_out tn descr (?xs ! i)) d) ! k) = tr"
      using same [OF k] by simp
    ultimately have "timestamp (transactions (save_transaction i (label_out tn descr (?xs ! i)) d) ! k)
        \<le> timestamp (?ys ! j)"
      using p2(4) by blast
    then show "timestamp (?xs ! k) \<le> timestamp (?xs ! j)"
      using same [OF k] same [OF j] by simp
  qed
  show ?thesis
    apply (rule exI [of _ i])
    apply (rule exI [of _ j])
    apply (rule conjI [OF i conjI [OF j conjI [OF a1 conjI [OF a2 conjI [OF m1 conjI [OF m2 conjI [OF t' conjI [OF s]]]]]]]])
    done
qed

subsection \<open>The accounts after a successful transfer\<close>

lemma transfer_body_tables:
  assumes "transfer_body mb now_w now_d f t fn tn descr amt d = (Inr u, d')"
  shows "table k d' =
     table k (save_account (fst t, (snd t)\<lparr>balance := balance (snd t) + amt\<rparr>)
               (save_account (fst f, (snd f)\<lparr>balance := balance (snd f) - amt\<rparr>) d))"
proof -
  note b = transfer_body_Inr [OF assms]
  from relabel_Inr [OF b(3)] have "savings d' = savings (before_relabel mb now_w now_d amt f t d)"
    and "current d' = current (before_relabel mb now_w now_d amt f t d)" by blast+
  then have "table k d' = table k (before_relabel mb now_w now_d amt f t d)" by (rule table_eq)
  also have "\<dots> = table k (save_account (fst t, (snd t)\<lparr>balance := balance (snd t) + amt\<rparr>)
               (save_account (fst f, (snd f)\<lparr>balance := balance (snd f) - amt\<rparr>) d))"
    by (rule table_before_relabel(1) [where mb=mb and f=f and amt=amt, OF b(1,2)])
  finally show ?thesis .
qed

lemma transfer_body_balances:
  assumes "transfer_body mb now_w now_d f t fn tn descr amt d = (Inr u, d')"
    and "fst t \<noteq> fst f"
    and "snd (fst f) < length (table (fst (fst f)) d)"
    and "snd (fst t) < length (table (fst (fst t)) d)"
  shows "table (fst (fst f)) d' ! snd (fst f) = (snd f)\<lparr>balance := balance (snd f) - amt\<rparr>"
    and "table (fst (fst t)) d' ! snd (fst t) = (snd t)\<lparr>balance := balance (snd t) + amt\<rparr>"
proof -
  have ne: "fst (fst t) = fst (fst f) \<Longrightarrow> snd (fst t) \<noteq> snd (fst f)"
    using assms(2) by (auto simp: prod_eq_iff)
  show "table (fst (fst f)) d' ! snd (fst f) = (snd f)\<lparr>balance := balance (snd f) - amt\<rparr>"
    using assms(3) ne
    by (cases "fst (fst t) = fst (fst f)")
       (simp_all add: transfer_body_tables [OF assms(1)] table_save_account)
  show "table (fst (fst t)) d' ! snd (fst t) = (snd t)\<lparr>balance := balance (snd t) + amt\<rparr>"
    using assms(4) ne
    by (cases "fst (fst t) = fst (fst f)")
       (simp_all add: transfer_body_tables [OF assms(1)] table_save_account)
qed

lemma transfer_body_transactions:
  assumes "transfer_body mb now_w now_d f t fn tn descr amt d = (Inr u, d')"
  shows "length (transactions d') = length (transactions d) + 2"
proof -
  note b = transfer_body_Inr [OF assms]
  from relabel_Inr [OF b(3)] obtain i j where
    "transactions d' =
       (transactions (before_relabel mb now_w now_d amt f t d))
         [i := label_out tn descr (transactions (before_relabel mb now_w now_d amt f t d) ! i),
          j := label_in fn descr
                 ((transactions (before_relabel mb now_w now_d amt f t d))
                    [i := label_out tn descr
                            (transactions (before_relabel mb now_w now_d amt f t d) ! i)] ! j)]"
    by blast
  then have "length (transactions d') = length (transactions (before_relabel mb now_w now_d amt f t d))"
    by simp
  also have "\<dots> = length (transactions d) + 2"
    by (simp add: table_before_relabel(2) [where mb=mb and f=f and amt=amt, OF b(1,2)])
  finally show ?thesis .
qed

subsection \<open>The atomic block when the store fails\<close>

lemma transfer_body_with_fault_None:
  "transfer_body_with_fault None mb now_w now_d f t fn tn descr amt d
     = transfer_body mb now_w now_d f t fn tn descr amt d"
  by (simp add: transfer_body_with_fault_def transfer_body_def relabel_def Let_def
      split: prod.splits sum.splits)

lemma transfer_money_with_fault_None:
  "transfer_money_with_fault None mb user n now_w now_d req d
     = transfer_money mb user n now_w now_d req d"
proof -
  have eq: "transfer_body_with_fault None mb now_w now_d f t fn tn descr amt
      = transfer_body mb now_w now_d f t fn tn descr amt" for f t fn tn descr amt
    by (rule ext) (rule transfer_body_with_fault_None)
  show ?thesis
    unfolding transfer_money_with_fault_def transfer_money_def eq by (rule refl)
qed

lemma transfer_money_with_fault_unchanged:
  "fst (transfer_money_with_fault fault mb user n now_w now_d req d) \<noteq> Success \<Longrightarrow>
   snd (transfer_money_with_fault fault mb user n now_w now_d req d) = d"
  by (auto simp: transfer_money_with_fault_def atomic_def Let_def
      split: sum.splits error.splits request.splits prod.splits)

lemma transfer_money_with_fault_post:
  assumes "get_own_account user n d = Inr f" and "get_recipient_account to d = Inr t"
  shows "transfer_money_with_fault fault mb user n now_w now_d (POST_valid (to, amt, descr_opt)) d =
     (case atomic (transfer_body_with_fault fault mb now_w now_d f t n to
                     (case descr_opt of None \<Rightarrow> ''Fund Transfer'' | Some s \<Rightarrow> s) amt) d of
        (Inr _, d') \<Rightarrow> (Success, d')
      | (Inl e, d') \<Rightarrow> (if is_ValueError e then Rejected e else Failed e, d'))"
  using assms by (simp add: transfer_money_with_fault_def)

lemma transfer_money_with_fault_error:
  assumes "get_own_account user n d = Inr f" and "get_recipient_account to d = Inr t"
    and "fst (transfer_body_with_fault fault mb now_w now_d f t n to
                (case descr_opt of None \<Rightarrow> ''Fund Transfer'' | Some s \<Rightarrow> s) amt d) = Inl e"
  shows "transfer_money_with_fault fault mb user n now_w now_d (POST_valid (to, amt, descr_opt)) d =
           (if is_ValueError e then Rejected e else Failed e, d)"
proof -
  let ?body = "transfer_body_with_fault fault mb now_w now_d f t n to
                  (case descr_opt of None \<Rightarrow> ''Fund Transfer'' | Some s \<Rightarrow> s) amt"
  from assms(3) have "fst (atomic ?body d) = Inl e" by (simp add: atomic_Inl_iff)
  moreover from this have "snd (atomic ?body d) = d" by (rule atomic_Inl)
  ultimately have "atomic ?body d = (Inl e, d)" by (simp add: prod_eq_iff)
  then show ?thesis
    by (simp add: transfer_money_with_fault_post [OF assms(1,2)])
qed

lemma body_fault_withdraw_Inl:
  assumes "fst (withdraw mb now_w amt f d) = Inl e"
  shows "transfer_body_with_fault fault mb now_w now_d f t fn tn descr amt d
           = (Inl (if fault = Some Withdraw_step then DatabaseError else e), d)"
proof -
  from withdraw_Inl [OF assms] have "withdraw mb now_w amt f d = (Inl e, d)" by simp
  then show ?thesis by (simp add: transfer_body_with_fault_def)
qed

lemma withdraw_applied:
  assumes "0 < amt" and "mb (fst (fst f)) \<le> balance (snd f) - amt"
  shows "withdraw mb now_w amt f d
           = (Inr (fst f, (snd f)\<lparr>balance := balance (snd f) - amt\<rparr>),
              snd (withdraw mb now_w amt f d))"
    and "transactions (snd (withdraw mb now_w amt f d)) = transactions d @
      [\<lparr>tx_account = fst f, transaction_type = WITHDRAWAL, amount = amt, description = [],
        timestamp = now_w, balance_after = balance (snd f) - amt\<rparr>]"
    and "table k (snd (withdraw mb now_w amt f d))
           = table k (save_account (fst f, (snd f)\<lparr>balance := balance (snd f) - amt\<rparr>) d)"
  by (simp_all add: withdraw_Inr [where amt=amt and mb=mb and obj=f, OF assms])

lemma deposit_applied:
  assumes "0 < amt"
  shows "deposit now_d amt t (snd (withdraw mb now_w amt f d))
           = (Inr (fst t, (snd t)\<lparr>balance := balance (snd t) + amt\<rparr>),
              before_relabel mb now_w now_d amt f t d)"
  using deposit_Inr [OF assms] by (simp add: before_relabel_def)

lemma body_fault_deposit:
  assumes "0 < amt" and "mb (fst (fst f)) \<le> balance (snd f) - amt"
  shows "transfer_body_with_fault (Some Deposit_step) mb now_w now_d f t fn tn descr amt d
           = (Inl DatabaseError, snd (withdraw mb now_w amt f d))"
  unfolding transfer_body_with_fault_def
  by (subst withdraw_applied(1) [where mb=mb and f=f and amt=amt, OF assms]) simp

lemma body_fault_relabel_out:
  assumes "0 < amt" and "mb (fst (fst f)) \<le> balance (snd f) - amt"
  shows "transfer_body_with_fault (Some Relabel_out_step) mb now_w now_d f t fn tn descr amt d
           = (Inl DatabaseError, before_relabel mb now_w now_d amt f t d)"
  unfolding transfer_body_with_fault_def
  by (subst withdraw_applied(1) [where mb=mb and f=f and amt=amt, OF assms], simp,
      subst deposit_applied [OF assms(1)], simp)

lemma body_fault_relabel_in:
  assumes "0 < amt" and "mb (fst (fst f)) \<le> balance (snd f) - amt"
  shows "\<exists>i. i < length (transactions (before_relabel mb now_w now_d amt f t d))
     \<and> tx_account (transactions (before_relabel mb now_w now_d amt f t d) ! i) = fst f
     \<and> transfer_body_with_fault (Some Relabel_in_step) mb now_w now_d f t fn tn descr amt d
         = (Inl DatabaseError,
            save_transaction i
              (label_out tn descr (transactions (before_relabel mb now_w now_d amt f t d) ! i))
              (before_relabel mb now_w now_d amt f t d))"
proof -
  let ?d2 = "before_relabel mb now_w now_d amt f t d"
  have tx: "transactions ?d2 = transactions d @
      [\<lparr>tx_account = fst f, transaction_type = WITHDRAWAL, amount = amt, description = [],
        timestamp = now_w, balance_after = balance (snd f) - amt\<rparr>,
       \<lparr>tx_account = fst t, transaction_type = DEPOSIT, amount = amt, description = [],
        timestamp = now_d, balance_after = balance (snd t) + amt\<rparr>]"
    by (rule table_before_relabel(2) [where mb=mb and f=f and amt=amt, OF assms])
  have "length (transactions d) < length (transactions ?d2)" by (simp add: tx)
  moreover have "tx_account (transactions ?d2 ! length (transactions d)) = fst f"
    by (simp add: tx)
  ultimately obtain i lw where l: "latest (fst f) ?d2 = Inr (i, lw)"
    using latest_exists by blast
  note p = latest_Inr [OF l]
  have "transfer_body_with_fault (Some Relabel_in_step) mb now_w now_d f t fn tn descr amt d
         = (Inl DatabaseError, save_transaction i (label_out tn descr (transactions ?d2 ! i)) ?d2)"
    unfolding transfer_body_with_fault_def
    by (subst withdraw_applied(1) [where mb=mb and f=f and amt=amt, OF assms], simp,
        subst deposit_applied [OF assms(1)], simp add: l p(2) label_out_def)
  with p(1) p(2) p(3) show ?thesis by blast
qed

section \<open>Transfer: failure leaves the store unchanged\<close>

text \<open>
  Claim C1. The transfer is taken with the store able to refuse any statement of the
  atomic block (\<open>fault\<close>); with no fault it is \<open>transfer_money\<close>.
  \<^item> Whenever the view does not answer with success, the store after the call is the
    store before it: every balance and every transaction record is as it was.
  \<^item> When the body of the block raises, at the withdrawal, the deposit or the
    relabelling, the view answers with that error and the store of before the call.
  \<^item> An error of the withdrawal (its own or the store's) ends the body with the store
    untouched: the deposit is not run.
  \<^item> When the withdrawal is permitted and the store fails at the deposit, the body has
    reached a store that holds the withdrawal's record; when it fails at the first
    relabelling, a store that holds the withdrawal's and the deposit's records; when
    it fails at the second relabelling, a store in which a record of the source
    account is already relabelled TRANSFER_OUT.
  \<^item> In each of these cases the view answers \<open>Failed DatabaseError\<close> and the store
    is the one of before the call: the withdrawal that was applied is undone and no
    relabelled record is left behind.
\<close>

theorem transfer_failure_rolls_back:
  "(fst (transfer_money_with_fault fault mb user n now_w now_d req d) \<noteq> Success \<longrightarrow>
      snd (transfer_money_with_fault fault mb user n now_w now_d req d) = d)
   \<and> (get_own_account user n d = Inr f \<and> get_recipient_account to d = Inr t
        \<and> fst (transfer_body_with_fault fault mb now_w now_d f t n to
                  (case descr_opt of None \<Rightarrow> ''Fund Transfer'' | Some s \<Rightarrow> s) amt d) = Inl e \<longrightarrow>
      transfer_money_with_fault fault mb user n now_w now_d (POST_valid (to, amt, descr_opt)) d =
        (if is_ValueError e then Rejected e else Failed e, d))
   \<and> (fst (withdraw mb now_w amt f d) = Inl e \<longrightarrow>
        transfer_body_with_fault fault mb now_w now_d f t n to descr amt d =
          (Inl (if fault = Some Withdraw_step then DatabaseError else e), d))
   \<and> (0 < amt \<and> mb (fst (fst f)) \<le> balance (snd f) - amt \<longrightarrow>
        transfer_body_with_fault (Some Deposit_step) mb now_w now_d f t n to descr amt d
          = (Inl DatabaseError, snd (withdraw mb now_w amt f d))
        \<and> transactions (snd (withdraw mb now_w amt f d)) = transactions d @
            [\<lparr>tx_account = fst f, transaction_type = WITHDRAWAL, amount = amt, description = [],
              timestamp = now_w, balance_after = balance (snd f) - amt\<rparr>]
        \<and> transfer_body_with_fault (Some Relabel_out_step) mb now_w now_d f t n to descr amt d
          = (Inl DatabaseError, before_relabel mb now_w now_d amt f t d)
        \<and> transactions (before_relabel mb now_w now_d amt f t d) = transactions d @
            [\<lparr>tx_account = fst f, transaction_type = WITHDRAWAL, amount = amt, description = [],
              timestamp = now_w, balance_after = balance (snd f) - amt\<rparr>,
             \<lparr>tx_account = fst t, transaction_type = DEPOSIT, amount = amt, description = [],
              timestamp = now_d, balance_after = balance (snd t) + amt\<rparr>]
        \<and> (\<exists>i. i < length (transactions (before_relabel mb now_w now_d amt f t d))
              \<and> tx_account (transactions (before_relabel mb now_w now_d amt f t d) ! i) = fst f
              \<and> transfer_body_with_fault (Some Relabel_in_step) mb now_w now_d f t n to descr amt d
                  = (Inl DatabaseError,
                     save_transaction i
                       (label_out to descr
                          (transactions (before_relabel mb now_w now_d amt f t d) ! i))
                       (before_relabel mb now_w now_d amt f t d))))
   \<and> (get_own_account user n d = Inr f \<and> get_recipient_account to d = Inr t
        \<and> 0 < amt \<and> mb (fst (fst f)) \<le> balance (snd f) - amt \<and> fault = Some s \<longrightarrow>
        transfer_money_with_fault fault mb user n now_w now_d (POST_valid (to, amt, descr_opt)) d
          = (Failed DatabaseError, d))
   \<and> transfer_money_with_fault None mb user n now_w now_d req d
       = transfer_money mb user n now_w now_d req d"
proof -
  let ?descr = "case descr_opt of None \<Rightarrow> ''Fund Transfer'' | Some s \<Rightarrow> s"
  have c1: "fst (transfer_money_with_fault fault mb user n now_w now_d req d) \<noteq> Success \<longrightarrow>
      snd (transfer_money_with_fault fault mb user n now_w now_d req d) = d"
    by (rule impI) (rule transfer_money_with_fault_unchanged)
  have c2: "get_own_account user n d = Inr f \<and> get_recipient_account to d = Inr t
        \<and> fst (transfer_body_with_fault fault mb now_w now_d f t n to ?descr amt d) = Inl e \<longrightarrow>
      transfer_money_with_fault fault mb user n now_w now_d (POST_valid (to, amt, descr_opt)) d =
        (if is_ValueError e then Rejected e else Failed e, d)"
  proof
    assume a: "get_own_account user n d = Inr f \<and> get_recipient_account to d = Inr t
        \<and> fst (transfer_body_with_fault fault mb now_w now_d f t n to ?descr amt d) = Inl e"
    then have own: "get_own_account user n d = Inr f"
      and rec: "get_recipient_account to d = Inr t"
      and err: "fst (transfer_body_with_fault fault mb now_w now_d f t n to ?descr amt d) = Inl e"
      by simp_all
    show "transfer_money_with_fault fault mb user n now_w now_d (POST_valid (to, amt, descr_opt)) d =
        (if is_ValueError e then Rejected e else Failed e, d)"
      by (rule transfer_money_with_fault_error [OF own rec err])
  qed
  have c3: "fst (withdraw mb now_w amt f d) = Inl e \<longrightarrow>
        transfer_body_with_fault fault mb now_w now_d f t n to descr amt d =
          (Inl (if fault = Some Withdraw_step then DatabaseError else e), d)"
    by (rule impI) (rule body_fault_withdraw_Inl)
  have c4: "0 < amt \<and> mb (fst (fst f)) \<le> balance (snd f) - amt \<longrightarrow>
        transfer_body_with_fault (Some Deposit_step) mb now_w now_d f t n to descr amt d
          = (Inl DatabaseError, snd (withdraw mb now_w amt f d))
        \<and> transactions (snd (withdraw mb now_w amt f d)) = transactions d @
            [\<lparr>tx_account = fst f, transaction_type = WITHDRAWAL, amount = amt, description = [],
              timestamp = now_w, balance_after = balance (snd f) - amt\<rparr>]
        \<and> transfer_body_with_fault (Some Relabel_out_step) mb now_w now_d f t n to descr amt d
          = (Inl DatabaseError, before_relabel mb now_w now_d amt f t d)
        \<and> transactions (before_relabel mb now_w now_d amt f t d) = transactions d @
            [\<lparr>tx_account = fst f, transaction_type = WITHDRAWAL, amount = amt, description = [],
              timestamp = now_w, balance_after = balance (snd f) - amt\<rparr>,
             \<lparr>tx_account = fst t, transaction_type = DEPOSIT, amount = amt, description = [],
              timestamp = now_d, balance_after = balance (snd t) + amt\<rparr>]
        \<and> (\<exists>i. i < length (transactions (before_relabel mb now_w now_d amt f t d))
              \<and> tx_account (transactions (before_relabel mb now_w now_d amt f t d) ! i) = fst f
              \<and> transfer_body_with_fault (Some Relabel_in_step) mb now_w now_d f t n to descr amt d
                  = (Inl DatabaseError,
                     save_transaction i
                       (label_out to descr
                          (transactions (before_relabel mb now_w now_d amt f t d) ! i))
                       (before_relabel mb now_w now_d amt f t d)))"
  proof
    assume "0 < amt \<and> mb (fst (fst f)) \<le> balance (snd f) - amt"
    then have pos: "0 < amt" and funds: "mb (fst (fst f)) \<le> balance (snd f) - amt" by simp_all
    note k1 = body_fault_deposit [where mb=mb and f=f and amt=amt, OF pos funds]
    note k2 = withdraw_applied(2) [where mb=mb and f=f and amt=amt, OF pos funds]
    note k3 = body_fault_relabel_out [where mb=mb and f=f and amt=amt, OF pos funds]
    note k4 = table_before_relabel(2) [where mb=mb and f=f and amt=amt, OF pos funds]
    note k5 = body_fault_relabel_in [where mb=mb and f=f and amt=amt, OF pos funds]
    show "transfer_body_with_fault (Some Deposit_step) mb now_w now_d f t n to descr amt d
          = (Inl DatabaseError, snd (withdraw mb now_w amt f d))
        \<and> transactions (snd (withdraw mb now_w amt f d)) = transactions d @
            [\<lparr>tx_account = fst f, transaction_type = WITHDRAWAL, amount = amt, description = [],
              timestamp = now_w, balance_after = balance (snd f) - amt\<rparr>]
        \<and> transfer_body_with_fault (Some Relabel_out_step) mb now_w now_d f t n to descr amt d
          = (Inl DatabaseError, before_relabel mb now_w now_d amt f t d)
        \<and> transactions (before_relabel mb now_w now_d amt f t d) = transactions d @
            [\<lparr>tx_account = fst f, transaction_type = WITHDRAWAL, amount = amt, description = [],
              timestamp = now_w, balance_after = balance (snd f) - amt\<rparr>,
             \<lparr>tx_account = fst t, transaction_type = DEPOSIT, amount = amt, description = [],
              timestamp = now_d, balance_after = balance (snd t) + amt\<rparr>]
        \<and> (\<exists>i. i < length (transactions (before_relabel mb now_w now_d amt f t d))
              \<and> tx_account (transactions (before_relabel mb now_w now_d amt f t d) ! i) = fst f
              \<and> transfer_body_with_fault (Some Relabel_in_step) mb now_w now_d f t n to descr amt d
                  = (Inl DatabaseError,
                     save_transaction i
                       (label_out to descr
                          (transactions (before_relabel mb now_w now_d amt f t d) ! i))
                       (before_relabel mb now_w now_d amt f t d)))"
      by (rule conjI [OF k1 conjI [OF k2 conjI [OF k3 conjI [OF k4 k5]]]])
  qed
  have c5: "get_own_account user n d = Inr f \<and> get_recipient_account to d = Inr t
        \<and> 0 < amt \<and> mb (fst (fst f)) \<le> balance (snd f) - amt \<and> fault = Some s \<longrightarrow>
        transfer_money_with_fault fault mb user n now_w now_d (POST_valid (to, amt, descr_opt)) d
          = (Failed DatabaseError, d)"
  proof
    assume a: "get_own_account user n d = Inr f \<and> get_recipient_account to d = Inr t
        \<and> 0 < amt \<and> mb (fst (fst f)) \<le> balance (snd f) - amt \<and> fault = Some s"
    then have own: "get_own_account user n d = Inr f"
      and rec: "get_recipient_account to d = Inr t"
      and pos: "0 < amt" and funds: "mb (fst (fst f)) \<le> balance (snd f) - amt"
      and fl: "fault = Some s"
      by simp_all
    have "fst (transfer_body_with_fault (Some s) mb now_w now_d f t n to ?descr amt d)
            = Inl DatabaseError"
    proof (cases s)
      case Withdraw_step
      then show ?thesis by (simp add: transfer_body_with_fault_def)
    next
      case Deposit_step
      then show ?thesis
        by (simp add: body_fault_deposit [where mb=mb and f=f and amt=amt, OF pos funds])
    next
      case Relabel_out_step
      then show ?thesis
        by (simp add: body_fault_relabel_out [where mb=mb and f=f and amt=amt, OF pos funds])
    next
      case Relabel_in_step
      from body_fault_relabel_in
          [where mb=mb and f=f and amt=amt and now_w=now_w and now_d=now_d and t=t
             and fn=n and tn=to and descr="?descr" and d=d, OF pos funds]
      obtain i where "transfer_body_with_fault (Some Relabel_in_step) mb now_w now_d f t n to
                        ?descr amt d
                  = (Inl DatabaseError,
                     save_transaction i
                       (label_out to ?descr
                          (transactions (before_relabel mb now_w now_d amt f t d) ! i))
                       (before_relabel mb now_w now_d amt f t d))"
        by blast
      with Relabel_in_step show ?thesis by simp
    qed
    then have err: "fst (transfer_body_with_fault fault mb now_w now_d f t n to ?descr amt d)
            = Inl DatabaseError"
      by (simp add: fl)
    from transfer_money_with_fault_error [OF own rec err]
    show "transfer_money_with_fault fault mb user n now_w now_d (POST_valid (to, amt, descr_opt)) d
          = (Failed DatabaseError, d)"
      by (simp add: is_ValueError_def)
  qed
  have c6: "transfer_money_with_fault None mb user n now_w now_d req d
       = transfer_money mb user n now_w now_d req d"
    by (rule transfer_money_with_fault_None)
  show ?thesis
    by (rule conjI [OF c1 conjI [OF c2 conjI [OF c3 conjI [OF c4 conjI [OF c5 c6]]]]])
qed

text \<open>
  On the example store, a transfer of 100 from S1 to C1. When the store fails at the
  deposit, the body has already written the withdrawal (S1 stands at 900), and the
  view returns the store of before the call; likewise when it fails at the second
  relabelling. A transfer of 600 is rejected for insufficient funds and changes
  nothing.
\<close>

theorem transfer_failure_rolls_back_witness:
  "get_own_account 1 ''S1'' ex_db = Inr ex_from
   \<and> get_recipient_account ''C1'' ex_db = Inr ex_to
   \<and> (0::int) < 100 \<and> mb0 (fst (fst ex_from)) \<le> balance (snd ex_from) - 100
   \<and> map balance
        (savings (snd (transfer_body_with_fault (Some Deposit_step) mb0 3 4 ex_from ex_to
                         ''S1'' ''C1'' ''Fund Transfer'' 100 ex_db))) = [900]
   \<and> transfer_money_with_fault (Some Deposit_step) mb0 1 ''S1'' 3 4
         (POST_valid (''C1'', 100, None)) ex_db = (Failed DatabaseError, ex_db)
   \<and> transfer_money_with_fault (Some Relabel_in_step) mb0 1 ''S1'' 3 4
         (POST_valid (''C1'', 100, None)) ex_db = (Failed DatabaseError, ex_db)
   \<and> fst (transfer_money_with_fault None mb0 1 ''S1'' 3 4 (POST_valid (''C1'', 600, None)) ex_db)
       = Rejected InsufficientFunds
   \<and> snd (transfer_money_with_fault None mb0 1 ''S1'' 3 4 (POST_valid (''C1'', 600, None)) ex_db)
       = ex_db"
proof -
  have h1: "get_own_account 1 ''S1'' ex_db = Inr ex_from"
    by (simp add: ex_db_def ex_from_def eval_defs)
  have h2: "get_recipient_account ''C1'' ex_db = Inr ex_to"
    by (simp add: ex_db_def ex_to_def eval_defs)
  have h3: "(0::int) < 100 \<and> mb0 (fst (fst ex_from)) \<le> balance (snd ex_from) - 100"
    by (simp add: ex_from_def mb0_def)
  have h4: "map balance
        (savings (snd (transfer_body_with_fault (Some Deposit_step) mb0 3 4 ex_from ex_to
                         ''S1'' ''C1'' ''Fund Transfer'' 100 ex_db))) = [900]"
    by (simp add: transfer_body_with_fault_def ex_db_def ex_from_def ex_to_def mb0_def eval_defs)
  have h5: "fst (transfer_money_with_fault None mb0 1 ''S1'' 3 4
                   (POST_valid (''C1'', 600, None)) ex_db) = Rejected InsufficientFunds"
    by (simp add: transfer_money_with_fault_def transfer_body_with_fault_def
        ex_db_def mb0_def eval_defs)
  from h1 h2 h3 transfer_failure_rolls_back
    [of "Some Deposit_step" mb0 1 "''S1''" 3 4 "POST_valid (''C1'', 100, None)" ex_db
        ex_from "''C1''" ex_to None 100 DatabaseError "''Fund Transfer''" Deposit_step]
  have r1: "transfer_money_with_fault (Some Deposit_step) mb0 1 ''S1'' 3 4
         (POST_valid (''C1'', 100, None)) ex_db = (Failed DatabaseError, ex_db)"
    by blast
  from h1 h2 h3 transfer_failure_rolls_back
    [of "Some Relabel_in_step" mb0 1 "''S1''" 3 4 "POST_valid (''C1'', 100, None)" ex_db
        ex_from "''C1''" ex_to None 100 DatabaseError "''Fund Transfer''" Relabel_in_step]
  have r2: "transfer_money_with_fault (Some Relabel_in_step) mb0 1 ''S1'' 3 4
         (POST_valid (''C1'', 100, None)) ex_db = (Failed DatabaseError, ex_db)"
    by blast
  from h5 have ne: "fst (transfer_money_with_fault None mb0 1 ''S1'' 3 4
                   (POST_valid (''C1'', 600, None)) ex_db) \<noteq> Success"
    by simp
  have r3: "snd (transfer_money_with_fault None mb0 1 ''S1'' 3 4
                   (POST_valid (''C1'', 600, None)) ex_db) = ex_db"
    by (rule transfer_failure_rolls_back
        [where fault=None and mb=mb0 and user=1 and n="''S1''" and now_w=3 and now_d=4
           and req="POST_valid (''C1'', 600, None)" and d=ex_db,
         THEN conjunct1, THEN mp, OF ne])
  show ?thesis
    using h1 h2 h3 h4 h5 r1 r2 r3 by simp
qed

section \<open>The minimum-balance floor\<close>



lemma create_transaction_floor [simp]:
  "account_floor_ok mb r (create_transaction t d) = account_floor_ok mb r d"
  by (simp add: account_floor_ok_def)











section \<open>Transfer: source and destination with the same number\<close>

text \<open>
  Claim C3, as the code has it. \<open>transfer_money\<close> does not compare the source with
  the destination. A request whose destination number is the source's number is
  handled as any other: when both lookups find an account, the amount is positive and
  the source's floor permits the withdrawal, the view answers with success and the
  store holds two more transaction records. When the view does not answer with
  success, the store is unchanged.
\<close>

theorem self_transfer_is_carried_out:
  "(get_own_account user n d = Inr f \<and> get_recipient_account n d = Inr t
      \<and> 0 < amt \<and> mb (fst (fst f)) \<le> balance (snd f) - amt \<longrightarrow>
      fst (transfer_money mb user n now_w now_d (POST_valid (n, amt, descr_opt)) d) = Success
      \<and> length (transactions
                  (snd (transfer_money mb user n now_w now_d (POST_valid (n, amt, descr_opt)) d)))
          = length (transactions d) + 2)
   \<and> (fst (transfer_money mb user n now_w now_d (POST_valid (n, amt, descr_opt)) d) \<noteq> Success \<longrightarrow>
        snd (transfer_money mb user n now_w now_d (POST_valid (n, amt, descr_opt)) d) = d)"
proof (rule conjI)
  show "get_own_account user n d = Inr f \<and> get_recipient_account n d = Inr t
      \<and> 0 < amt \<and> mb (fst (fst f)) \<le> balance (snd f) - amt \<longrightarrow>
      fst (transfer_money mb user n now_w now_d (POST_valid (n, amt, descr_opt)) d) = Success
      \<and> length (transactions
                  (snd (transfer_money mb user n now_w now_d (POST_valid (n, amt, descr_opt)) d)))
          = length (transactions d) + 2"
  proof
    assume a: "get_own_account user n d = Inr f \<and> get_recipient_account n d = Inr t
      \<and> 0 < amt \<and> mb (fst (fst f)) \<le> balance (snd f) - amt"
    then have own: "get_own_account user n d = Inr f"
      and rec: "get_recipient_account n d = Inr t"
      and pos: "0 < amt" and funds: "mb (fst (fst f)) \<le> balance (snd f) - amt"
      by simp_all
    from transfer_money_succeeds [where mb=mb and f=f and amt=amt, OF own rec pos funds]
    obtain d' where
      ok: "transfer_money mb user n now_w now_d (POST_valid (n, amt, descr_opt)) d = (Success, d')"
      and body: "transfer_body mb now_w now_d f t n n
         (case descr_opt of None \<Rightarrow> ''Fund Transfer'' | Some s \<Rightarrow> s) amt d = (Inr (), d')"
      by blast
    from transfer_body_transactions [OF body] ok
    show "fst (transfer_money mb user n now_w now_d (POST_valid (n, amt, descr_opt)) d) = Success
      \<and> length (transactions
                  (snd (transfer_money mb user n now_w now_d (POST_valid (n, amt, descr_opt)) d)))
          = length (transactions d) + 2"
      by simp
  qed
  show "fst (transfer_money mb user n now_w now_d (POST_valid (n, amt, descr_opt)) d) \<noteq> Success \<longrightarrow>
        snd (transfer_money mb user n now_w now_d (POST_valid (n, amt, descr_opt)) d) = d"
    by (rule impI) (rule transfer_money_unchanged)
qed

text \<open>On the example store: a transfer of 100 from S1 to S1 succeeds; one of 600 is rejected and changes nothing.\<close>

theorem self_transfer_is_carried_out_witness:
  "get_own_account 1 ''S1'' ex_db = Inr ex_from
   \<and> get_recipient_account ''S1'' ex_db = Inr ex_from
   \<and> (0::int) < 100 \<and> mb0 (fst (fst ex_from)) \<le> balance (snd ex_from) - 100
   \<and> fst (transfer_money mb0 1 ''S1'' 3 4 (POST_valid (''S1'', 100, None)) ex_db) = Success
   \<and> fst (transfer_money mb0 1 ''S1'' 3 4 (POST_valid (''S1'', 600, None)) ex_db)
       = Rejected InsufficientFunds
   \<and> snd (transfer_money mb0 1 ''S1'' 3 4 (POST_valid (''S1'', 600, None)) ex_db) = ex_db"
proof -
  have h1: "get_own_account 1 ''S1'' ex_db = Inr ex_from"
    by (simp add: ex_db_def ex_from_def eval_defs)
  have h2: "get_recipient_account ''S1'' ex_db = Inr ex_from"
    by (simp add: ex_db_def ex_from_def eval_defs)
  have h3: "(0::int) < 100 \<and> mb0 (fst (fst ex_from)) \<le> balance (snd ex_from) - 100"
    by (simp add: ex_from_def mb0_def)
  have h4: "fst (transfer_money mb0 1 ''S1'' 3 4 (POST_valid (''S1'', 600, None)) ex_db)
       = Rejected InsufficientFunds"
    by (simp add: ex_db_def mb0_def eval_defs)
  from h1 h2 h3 self_transfer_is_carried_out [of 1 "''S1''" ex_db ex_from ex_from 100 mb0 3 4 None]
  have s: "fst (transfer_money mb0 1 ''S1'' 3 4 (POST_valid (''S1'', 100, None)) ex_db) = Success"
    by blast
  from h4 self_transfer_is_carried_out [of 1 "''S1''" ex_db ex_from ex_from 600 mb0 3 4 None]
  have "snd (transfer_money mb0 1 ''S1'' 3 4 (POST_valid (''S1'', 600, None)) ex_db) = ex_db"
    by simp
  with h1 h2 h3 h4 s show ?thesis by simp
qed

text \<open>
  The claim as it was stated fails: a transfer from S1 to S1 is answered with
  success, and the store is not the store of before the call.
\<close>

theorem self_transfer_counterexample:
  "fst (transfer_money mb0 1 ''S1'' 3 4 (POST_valid (''S1'', 100, Some ''gift'')) ex_db) = Success
   \<and> snd (transfer_money mb0 1 ''S1'' 3 4 (POST_valid (''S1'', 100, Some ''gift'')) ex_db) \<noteq> ex_db
   \<and> length (transactions
               (snd (transfer_money mb0 1 ''S1'' 3 4 (POST_valid (''S1'', 100, Some ''gift'')) ex_db)))
       = 4"
  by (simp add: ex_db_def mb0_def eval_defs)

section \<open>Transfer: the labels of the two new records\<close>

text \<open>
  Between two different accounts, and with the clock past every earlier record of
  each account, the records the relabelling selects are the two the transfer has
  just created: the withdrawal's record becomes TRANSFER_OUT and names the
  destination and the description, the deposit's record becomes TRANSFER_IN and names
  the source. Earlier records are unchanged.
\<close>

lemma transfer_labels_distinct:
  assumes body: "transfer_body mb now_w now_d f t fn tn descr amt d = (Inr u, d')"
    and ne: "fst f \<noteq> fst t"
    and old_f: "\<forall>k < length (transactions d).
                  tx_account (transactions d ! k) = fst f \<longrightarrow> timestamp (transactions d ! k) < now_w"
    and old_t: "\<forall>k < length (transactions d).
                  tx_account (transactions d ! k) = fst t \<longrightarrow> timestamp (transactions d ! k) < now_d"
  shows "transactions d' = transactions d @
      [\<lparr>tx_account = fst f, transaction_type = TRANSFER_OUT, amount = amt,
        description = ''Transfer to '' @ tn @ '': '' @ descr,
        timestamp = now_w, balance_after = balance (snd f) - amt\<rparr>,
       \<lparr>tx_account = fst t, transaction_type = TRANSFER_IN, amount = amt,
        description = ''Transfer from '' @ fn @ '': '' @ descr,
        timestamp = now_d, balance_after = balance (snd t) + amt\<rparr>]"
proof -
  let ?w = "\<lparr>tx_account = fst f, transaction_type = WITHDRAWAL, amount = amt, description = [],
        timestamp = now_w, balance_after = balance (snd f) - amt\<rparr>"
  let ?p = "\<lparr>tx_account = fst t, transaction_type = DEPOSIT, amount = amt, description = [],
        timestamp = now_d, balance_after = balance (snd t) + amt\<rparr>"
  let ?old = "transactions d"
  let ?n = "length ?old"
  let ?xs = "transactions (before_relabel mb now_w now_d amt f t d)"
  note b = transfer_body_Inr [OF body]
  have xs: "?xs = ?old @ [?w, ?p]"
    by (rule table_before_relabel(2) [where mb=mb and f=f and amt=amt, OF b(1,2)])
  from relabel_frame [OF b(3)] obtain i j where
    i: "i < length ?xs" and j: "j < length ?xs"
    and a1: "tx_account (?xs ! i) = fst f" and a2: "tx_account (?xs ! j) = fst t"
    and m1: "\<forall>k < length ?xs. tx_account (?xs ! k) = fst f \<longrightarrow>
               timestamp (?xs ! k) \<le> timestamp (?xs ! i)"
    and m2: "\<forall>k < length ?xs. tx_account (?xs ! k) = fst t \<longrightarrow>
               timestamp (?xs ! k) \<le> timestamp (?xs ! j)"
    and t': "transactions d' =
              ?xs[i := label_out tn descr (?xs ! i),
                  j := label_in fn descr (?xs[i := label_out tn descr (?xs ! i)] ! j)]"
    by blast
  have wn: "?xs ! ?n = ?w" by (simp add: xs)
  have pn: "?xs ! Suc ?n = ?p" by (simp add: xs nth_append)
  have len: "length ?xs = Suc (Suc ?n)" by (simp add: xs)
  have nlt: "?n < length ?xs" and slt: "Suc ?n < length ?xs" by (simp_all add: len)
  have i_eq: "i = ?n"
  proof (rule ccontr)
    assume c: "i \<noteq> ?n"
    from i len c consider (old) "i < ?n" | (dep) "i = Suc ?n" by linarith
    then show False
    proof cases
      case old
      then have o: "?xs ! i = ?old ! i" by (simp add: xs nth_append)
      with a1 old old_f have "timestamp (?xs ! i) < now_w" by simp
      moreover have "now_w \<le> timestamp (?xs ! i)"
        using m1 [rule_format, OF nlt] by (simp add: wn)
      ultimately show False by simp
    next
      case dep
      with a1 pn ne show False by simp
    qed
  qed
  have j_eq: "j = Suc ?n"
  proof (rule ccontr)
    assume c: "j \<noteq> Suc ?n"
    from j len c consider (old) "j < ?n" | (wd) "j = ?n" by linarith
    then show False
    proof cases
      case old
      then have o: "?xs ! j = ?old ! j" by (simp add: xs nth_append)
      with a2 old old_t have "timestamp (?xs ! j) < now_d" by simp
      moreover have "now_d \<le> timestamp (?xs ! j)"
        using m2 [rule_format, OF slt] by (simp add: pn)
      ultimately show False by simp
    next
      case wd
      with a2 wn ne show False by simp
    qed
  qed
  show ?thesis
    unfolding t' i_eq j_eq
    by (simp add: xs nth_append list_update_append label_out_def label_in_def)
qed

text \<open>
  Claim C4 at a transfer from an account to itself: user 1 transfers 100 from the
  savings account S1 to S1, the account's records being created at the clock
  readings 3 and 4. Both calls of \<open>latest\<close> select the deposit's record. The
  withdrawal's record keeps the type WITHDRAWAL and its empty description; the
  deposit's record is relabelled twice and ends as TRANSFER_IN.
\<close>

theorem self_transfer_withdrawal_not_relabelled:
  "transactions
     (snd (transfer_money mb0 1 ''S1'' 3 4 (POST_valid (''S1'', 100, Some ''gift'')) ex_db))
   = [\<lparr>tx_account = (Savings, 0), transaction_type = DEPOSIT, amount = 1000,
       description = [], timestamp = 1, balance_after = 1000\<rparr>,
      \<lparr>tx_account = (Current, 0), transaction_type = DEPOSIT, amount = 50,
       description = [], timestamp = 2, balance_after = 50\<rparr>,
      \<lparr>tx_account = (Savings, 0), transaction_type = WITHDRAWAL, amount = 100,
       description = [], timestamp = 3, balance_after = 900\<rparr>,
      \<lparr>tx_account = (Savings, 0), transaction_type = TRANSFER_IN, amount = 100,
       description = ''Transfer from S1: gift'', timestamp = 4, balance_after = 1100\<rparr>]"
  by (simp add: ex_db_def mb0_def eval_defs)

section \<open>Account lookup\<close>

lemma account_lookup_probe:
  "account_lookup owner n d =
     (case objects_get Savings (account_matches owner n) d of
        Inr obj \<Rightarrow> Inr obj
      | Inl DoesNotExist \<Rightarrow> objects_get Current (account_matches owner n) d
      | Inl e \<Rightarrow> Inl e)"
proof (cases owner)
  case None
  have eq: "account_matches None n = (\<lambda>a. account_number a = n \<and> is_active a)"
    by (simp add: account_matches_def fun_eq_iff)
  show ?thesis
    unfolding None eq account_lookup_def get_recipient_account_def by simp
next
  case (Some u)
  have eq: "account_matches (Some u) n = (\<lambda>a. account_number a = n \<and> customer a = u \<and> is_active a)"
    by (auto simp: account_matches_def fun_eq_iff)
  show ?thesis
    unfolding Some eq account_lookup_def get_own_account_def by simp
qed

text \<open>
  Claim C5. A lookup that returns an account returns a row of the store that is
  active, has the number asked for and, when an owner is given, belongs to that
  owner; it is the only such row of its table, and it is a current account only when
  no savings account matches (the savings table is probed first). The lookup fails
  with \<open>DoesNotExist\<close> (the views' "Account not found") exactly when no active
  account matches in either table. No other outcome exists but
  \<open>MultipleObjectsReturned\<close>, which account numbers unique within each table
  exclude. The lookup is a function of the store and returns no store: it writes
  nothing. \<open>account_detail\<close> answers "not found" exactly when the lookup does.
\<close>

theorem account_lookup_correct:
  "(account_lookup owner n d = Inr obj \<longrightarrow>
      snd (fst obj) < length (table (fst (fst obj)) d)
      \<and> table (fst (fst obj)) d ! snd (fst obj) = snd obj
      \<and> account_matches owner n (snd obj)
      \<and> is_active (snd obj)
      \<and> (\<forall>j < length (table (fst (fst obj)) d).
            account_matches owner n (table (fst (fst obj)) d ! j) \<longrightarrow> j = snd (fst obj))
      \<and> (fst (fst obj) = Current \<longrightarrow> (\<forall>a \<in> set (savings d). \<not> account_matches owner n a)))
   \<and> (account_lookup owner n d = Inl DoesNotExist \<longleftrightarrow>
        (\<forall>a \<in> set (savings d) \<union> set (current d). \<not> account_matches owner n a))
   \<and> (\<forall>e. account_lookup owner n d = Inl e \<longrightarrow> e = DoesNotExist \<or> e = MultipleObjectsReturned)
   \<and> (distinct (map account_number (savings d)) \<and> distinct (map account_number (current d)) \<longrightarrow>
        account_lookup owner n d \<noteq> Inl MultipleObjectsReturned)
   \<and> (account_detail mb user n d = Inl AccountNotFound \<longleftrightarrow>
        account_lookup (Some user) n d = Inl DoesNotExist)"
proof -
  have c1: "account_lookup owner n d = Inr obj \<longrightarrow>
      snd (fst obj) < length (table (fst (fst obj)) d)
      \<and> table (fst (fst obj)) d ! snd (fst obj) = snd obj
      \<and> account_matches owner n (snd obj)
      \<and> is_active (snd obj)
      \<and> (\<forall>j < length (table (fst (fst obj)) d).
            account_matches owner n (table (fst (fst obj)) d ! j) \<longrightarrow> j = snd (fst obj))
      \<and> (fst (fst obj) = Current \<longrightarrow> (\<forall>a \<in> set (savings d). \<not> account_matches owner n a))"
  proof
    assume a: "account_lookup owner n d = Inr obj"
    note r = probe_Inr [OF a [unfolded account_lookup_probe]]
    have act: "is_active (snd obj)" using r(3) by (simp add: account_matches_def)
    show "snd (fst obj) < length (table (fst (fst obj)) d)
      \<and> table (fst (fst obj)) d ! snd (fst obj) = snd obj
      \<and> account_matches owner n (snd obj)
      \<and> is_active (snd obj)
      \<and> (\<forall>j < length (table (fst (fst obj)) d).
            account_matches owner n (table (fst (fst obj)) d ! j) \<longrightarrow> j = snd (fst obj))
      \<and> (fst (fst obj) = Current \<longrightarrow> (\<forall>a \<in> set (savings d). \<not> account_matches owner n a))"
      by (rule conjI [OF r(1) conjI [OF r(2) [symmetric] conjI [OF r(3) conjI [OF act conjI [OF r(4) r(5)]]]]])
  qed
  have c2: "account_lookup owner n d = Inl DoesNotExist \<longleftrightarrow>
        (\<forall>a \<in> set (savings d) \<union> set (current d). \<not> account_matches owner n a)"
    unfolding account_lookup_probe by (rule probe_DoesNotExist)
  have c3: "\<forall>e. account_lookup owner n d = Inl e \<longrightarrow> e = DoesNotExist \<or> e = MultipleObjectsReturned"
  proof (intro allI impI)
    fix e assume "account_lookup owner n d = Inl e"
    then show "e = DoesNotExist \<or> e = MultipleObjectsReturned"
      unfolding account_lookup_probe by (rule probe_errors)
  qed
  have c4: "distinct (map account_number (savings d)) \<and> distinct (map account_number (current d)) \<longrightarrow>
        account_lookup owner n d \<noteq> Inl MultipleObjectsReturned"
  proof
    assume "distinct (map account_number (savings d)) \<and> distinct (map account_number (current d))"
    then show "account_lookup owner n d \<noteq> Inl MultipleObjectsReturned"
      unfolding account_lookup_probe
      by (intro probe_not_multiple [where n = n]) (simp_all add: account_matches_def)
  qed
  have c5: "account_detail mb user n d = Inl AccountNotFound \<longleftrightarrow>
        account_lookup (Some user) n d = Inl DoesNotExist"
    by (auto simp: account_detail_def account_lookup_def split: sum.splits error.splits)
  show ?thesis
    by (rule conjI [OF c1 conjI [OF c2 conjI [OF c3 conjI [OF c4 c5]]]])
qed

text \<open>On a store where the savings account A1 is inactive and a current account has the same number: the lookup of A1 returns the current account; A2 is not found for a customer who does not own it.\<close>

theorem account_lookup_correct_witness:
  "account_lookup (Some 1) ''A1'' ex_lookup_db
     = Inr ((Current, 0), \<lparr>account_number = ''A1'', customer = 1, balance = 30, is_active = True\<rparr>)
   \<and> account_matches (Some 1) ''A1''
        \<lparr>account_number = ''A1'', customer = 1, balance = 30, is_active = True\<rparr>
   \<and> account_lookup (Some 2) ''A2'' ex_lookup_db = Inl DoesNotExist
   \<and> distinct (map account_number (savings ex_lookup_db))
   \<and> distinct (map account_number (current ex_lookup_db))
   \<and> account_lookup None ''A2'' ex_lookup_db \<noteq> Inl MultipleObjectsReturned"
proof -
  have a: "account_lookup (Some 1) ''A1'' ex_lookup_db
     = Inr ((Current, 0), \<lparr>account_number = ''A1'', customer = 1, balance = 30, is_active = True\<rparr>)"
    by (simp add: account_lookup_def ex_lookup_db_def eval_defs)
  have b: "\<forall>a \<in> set (savings ex_lookup_db) \<union> set (current ex_lookup_db).
             \<not> account_matches (Some 2) ''A2'' a"
    by (simp add: ex_lookup_db_def account_matches_def)
  have c: "distinct (map account_number (savings ex_lookup_db))
         \<and> distinct (map account_number (current ex_lookup_db))"
    by (simp add: ex_lookup_db_def)
  from a account_lookup_correct
    [of "Some 1" "''A1''" ex_lookup_db
        "((Current, 0), \<lparr>account_number = ''A1'', customer = 1, balance = 30, is_active = True\<rparr>)"]
  have "account_matches (Some 1) ''A1''
        \<lparr>account_number = ''A1'', customer = 1, balance = 30, is_active = True\<rparr>"
    by simp
  moreover from b account_lookup_correct [of "Some 2" "''A2''" ex_lookup_db]
  have "account_lookup (Some 2) ''A2'' ex_lookup_db = Inl DoesNotExist" by blast
  moreover from c account_lookup_correct [of None "''A2''" ex_lookup_db]
  have "account_lookup None ''A2'' ex_lookup_db \<noteq> Inl MultipleObjectsReturned" by blast
  ultimately show ?thesis using a c by simp
qed

section \<open>Transfer: whose accounts\<close>

text \<open>
  Claim C6. The source account of a transfer is looked up among the active accounts
  of the requesting customer: an account the lookup returns belongs to that customer,
  and when that customer has no such account the view answers "Account not found"
  and writes nothing. The destination is looked up with no owner filter: an account
  it returns is active and has the number asked for. Whoever owns the destination, a
  transfer of a positive amount that the source's floor permits succeeds, and between
  two different accounts it leaves the source with its balance less the amount and
  the destination with its balance plus the amount.
\<close>

theorem transfer_source_own_destination_any:
  "(get_own_account user n d = Inr f \<longrightarrow>
      customer (snd f) = user \<and> is_active (snd f) \<and> account_number (snd f) = n)
   \<and> (get_own_account user n d = Inl DoesNotExist \<longrightarrow>
        transfer_money mb user n now_w now_d req d = (AccountNotFound, d))
   \<and> (get_recipient_account to d = Inr t \<longrightarrow>
        is_active (snd t) \<and> account_number (snd t) = to)
   \<and> (get_own_account user n d = Inr f \<and> get_recipient_account to d = Inr t
        \<and> 0 < amt \<and> mb (fst (fst f)) \<le> balance (snd f) - amt \<longrightarrow>
        fst (transfer_money mb user n now_w now_d (POST_valid (to, amt, descr_opt)) d) = Success
        \<and> (fst t \<noteq> fst f \<longrightarrow>
             table (fst (fst f))
                 (snd (transfer_money mb user n now_w now_d (POST_valid (to, amt, descr_opt)) d))
               ! snd (fst f)
               = (snd f)\<lparr>balance := balance (snd f) - amt\<rparr>
           \<and> table (fst (fst t))
                 (snd (transfer_money mb user n now_w now_d (POST_valid (to, amt, descr_opt)) d))
               ! snd (fst t)
               = (snd t)\<lparr>balance := balance (snd t) + amt\<rparr>))"
proof -
  have c1: "get_own_account user n d = Inr f \<longrightarrow>
      customer (snd f) = user \<and> is_active (snd f) \<and> account_number (snd f) = n"
  proof
    assume "get_own_account user n d = Inr f"
    from get_own_account_Inr(3) [OF this]
    show "customer (snd f) = user \<and> is_active (snd f) \<and> account_number (snd f) = n" by simp
  qed
  have c2: "get_own_account user n d = Inl DoesNotExist \<longrightarrow>
        transfer_money mb user n now_w now_d req d = (AccountNotFound, d)"
    by (simp add: transfer_money_def)
  have c3: "get_recipient_account to d = Inr t \<longrightarrow>
        is_active (snd t) \<and> account_number (snd t) = to"
  proof
    assume "get_recipient_account to d = Inr t"
    from get_recipient_account_Inr(3) [OF this]
    show "is_active (snd t) \<and> account_number (snd t) = to" by simp
  qed
  have c4: "get_own_account user n d = Inr f \<and> get_recipient_account to d = Inr t
        \<and> 0 < amt \<and> mb (fst (fst f)) \<le> balance (snd f) - amt \<longrightarrow>
        fst (transfer_money mb user n now_w now_d (POST_valid (to, amt, descr_opt)) d) = Success
        \<and> (fst t \<noteq> fst f \<longrightarrow>
             table (fst (fst f))
                 (snd (transfer_money mb user n now_w now_d (POST_valid (to, amt, descr_opt)) d))
               ! snd (fst f)
               = (snd f)\<lparr>balance := balance (snd f) - amt\<rparr>
           \<and> table (fst (fst t))
                 (snd (transfer_money mb user n now_w now_d (POST_valid (to, amt, descr_opt)) d))
               ! snd (fst t)
               = (snd t)\<lparr>balance := balance (snd t) + amt\<rparr>)"
  proof
    assume a: "get_own_account user n d = Inr f \<and> get_recipient_account to d = Inr t
        \<and> 0 < amt \<and> mb (fst (fst f)) \<le> balance (snd f) - amt"
    then have own: "get_own_account user n d = Inr f"
      and rec: "get_recipient_account to d = Inr t"
      and pos: "0 < amt" and funds: "mb (fst (fst f)) \<le> balance (snd f) - amt"
      by simp_all
    from transfer_money_succeeds [where mb=mb and f=f and amt=amt, OF own rec pos funds]
    obtain d' where
      ok: "transfer_money mb user n now_w now_d (POST_valid (to, amt, descr_opt)) d = (Success, d')"
      and body: "transfer_body mb now_w now_d f t n to
         (case descr_opt of None \<Rightarrow> ''Fund Transfer'' | Some s \<Rightarrow> s) amt d = (Inr (), d')"
      by blast
    have "fst t \<noteq> fst f \<longrightarrow>
        table (fst (fst f)) d' ! snd (fst f) = (snd f)\<lparr>balance := balance (snd f) - amt\<rparr>
      \<and> table (fst (fst t)) d' ! snd (fst t) = (snd t)\<lparr>balance := balance (snd t) + amt\<rparr>"
    proof
      assume ne: "fst t \<noteq> fst f"
      note bal = transfer_body_balances
        [OF body ne get_own_account_Inr(1) [OF own] get_recipient_account_Inr(1) [OF rec]]
      show "table (fst (fst f)) d' ! snd (fst f) = (snd f)\<lparr>balance := balance (snd f) - amt\<rparr>
      \<and> table (fst (fst t)) d' ! snd (fst t) = (snd t)\<lparr>balance := balance (snd t) + amt\<rparr>"
        by (rule conjI [OF bal])
    qed
    with ok show "fst (transfer_money mb user n now_w now_d (POST_valid (to, amt, descr_opt)) d) = Success
        \<and> (fst t \<noteq> fst f \<longrightarrow>
             table (fst (fst f))
                 (snd (transfer_money mb user n now_w now_d (POST_valid (to, amt, descr_opt)) d))
               ! snd (fst f)
               = (snd f)\<lparr>balance := balance (snd f) - amt\<rparr>
           \<and> table (fst (fst t))
                 (snd (transfer_money mb user n now_w now_d (POST_valid (to, amt, descr_opt)) d))
               ! snd (fst t)
               = (snd t)\<lparr>balance := balance (snd t) + amt\<rparr>)"
      by simp
  qed
  show ?thesis by (rule conjI [OF c1 conjI [OF c2 conjI [OF c3 c4]]])
qed

text \<open>On the example store: customer 1 transfers from S1 to C1, which customer 2 owns; customer 2 cannot use S1 as a source.\<close>

theorem transfer_source_own_destination_any_witness:
  "get_own_account 1 ''S1'' ex_db = Inr ex_from
   \<and> get_recipient_account ''C1'' ex_db = Inr ex_to
   \<and> customer (snd ex_to) \<noteq> 1
   \<and> (0::int) < 100 \<and> mb0 (fst (fst ex_from)) \<le> balance (snd ex_from) - 100
   \<and> fst (transfer_money mb0 1 ''S1'' 3 4 (POST_valid (''C1'', 100, None)) ex_db) = Success
   \<and> get_own_account 2 ''S1'' ex_db = Inl DoesNotExist
   \<and> transfer_money mb0 2 ''S1'' 3 4 (POST_valid (''C1'', 100, None)) ex_db
       = (AccountNotFound, ex_db)"
proof -
  have h1: "get_own_account 1 ''S1'' ex_db = Inr ex_from"
    by (simp add: ex_db_def ex_from_def eval_defs)
  have h2: "get_recipient_account ''C1'' ex_db = Inr ex_to"
    by (simp add: ex_db_def ex_to_def eval_defs)
  have h3: "(0::int) < 100 \<and> mb0 (fst (fst ex_from)) \<le> balance (snd ex_from) - 100"
    by (simp add: ex_from_def mb0_def)
  have h4: "customer (snd ex_to) \<noteq> 1" by (simp add: ex_to_def)
  have h5: "get_own_account 2 ''S1'' ex_db = Inl DoesNotExist"
    by (simp add: ex_db_def eval_defs)
  from h1 h2 h3 transfer_source_own_destination_any
    [of 1 "''S1''" ex_db ex_from mb0 3 4 "POST_valid (''C1'', 100, None)" "''C1''" ex_to 100 None]
  have s: "fst (transfer_money mb0 1 ''S1'' 3 4 (POST_valid (''C1'', 100, None)) ex_db) = Success"
    by blast
  from h5 transfer_source_own_destination_any
    [of 2 "''S1''" ex_db ex_from mb0 3 4 "POST_valid (''C1'', 100, None)" "''C1''" ex_to 100 None]
  have "transfer_money mb0 2 ''S1'' 3 4 (POST_valid (''C1'', 100, None)) ex_db
       = (AccountNotFound, ex_db)"
    by blast
  with h1 h2 h3 h4 h5 s show ?thesis by simp
qed

section \<open>Account creation\<close>

lemma objects_create_eq:
  "objects_create k number user bal d =
     (((k, length (table k d)),
       \<lparr>account_number = number, customer = user, balance = bal, is_active = True\<rparr>),
      (case k of
         Savings \<Rightarrow> d\<lparr>savings := savings d @
                [\<lparr>account_number = number, customer = user, balance = bal, is_active = True\<rparr>]\<rparr>
       | Current \<Rightarrow> d\<lparr>current := current d @
                [\<lparr>account_number = number, customer = user, balance = bal, is_active = True\<rparr>]\<rparr>))"
  by (simp add: objects_create_def Let_def)

text \<open>
  Claim C7, as the code has it. A valid creation request for a savings or a current
  account with a positive initial deposit adds one row to the table of that variant,
  created with balance zero and then credited by \<open>deposit\<close>: the new row's balance
  is the initial amount, and the store's last transaction record is a DEPOSIT of
  that amount on the new account, with the new balance as its snapshot. Nothing else
  in the store changes.
\<close>

theorem create_account_records_opening_deposit:
  assumes "0 < initial_deposit"
    and "(account_type, k) = (''savings'', Savings) \<or> (account_type, k) = (''current'', Current)"
  shows "fst (create_account user number now (POST_valid (account_type, initial_deposit)) d)
           = Success
    \<and> fst (objects_create k number user 0 d)
        = ((k, length (table k d)),
           \<lparr>account_number = number, customer = user, balance = 0, is_active = True\<rparr>)
    \<and> table k (snd (create_account user number now (POST_valid (account_type, initial_deposit)) d))
        = table k d @
          [\<lparr>account_number = number, customer = user, balance = initial_deposit,
            is_active = True\<rparr>]
    \<and> transactions
        (snd (create_account user number now (POST_valid (account_type, initial_deposit)) d))
        = transactions d @
          [\<lparr>tx_account = (k, length (table k d)), transaction_type = DEPOSIT,
            amount = initial_deposit, description = [], timestamp = now,
            balance_after = initial_deposit\<rparr>]
    \<and> (k = Savings \<longrightarrow>
         current (snd (create_account user number now (POST_valid (account_type, initial_deposit)) d))
           = current d)
    \<and> (k = Current \<longrightarrow>
         savings (snd (create_account user number now (POST_valid (account_type, initial_deposit)) d))
           = savings d)"
proof -
  from assms(2) consider (sav) "account_type = ''savings''" "k = Savings"
    | (cur) "account_type = ''current''" "k = Current"
    by auto
  then show ?thesis
  proof cases
    case sav
    with assms(1) show ?thesis
      by (simp add: create_account_def objects_create_eq deposit_Inr table_def
          save_account_def create_transaction_def)
  next
    case cur
    with assms(1) show ?thesis
      by (simp add: create_account_def objects_create_eq deposit_Inr table_def
          save_account_def create_transaction_def)
  qed
qed

text \<open>A savings account opened with 1000 on the empty store.\<close>

theorem create_account_records_opening_deposit_witness:
  "(0::int) < 1000
   \<and> fst (create_account 1 ''S1'' 1 (POST_valid (''savings'', 1000)) empty_db) = Success
   \<and> table Savings (snd (create_account 1 ''S1'' 1 (POST_valid (''savings'', 1000)) empty_db))
       = [\<lparr>account_number = ''S1'', customer = 1, balance = 1000, is_active = True\<rparr>]
   \<and> transactions (snd (create_account 1 ''S1'' 1 (POST_valid (''savings'', 1000)) empty_db))
       = [\<lparr>tx_account = (Savings, 0), transaction_type = DEPOSIT, amount = 1000,
           description = [], timestamp = 1, balance_after = 1000\<rparr>]"
proof -
  have h: "(0::int) < 1000" by simp
  have k: "(''savings'', Savings) = (''savings'', Savings) \<or> (''savings'', Savings) = (''current'', Current)"
    by simp
  from create_account_records_opening_deposit [OF h k, of 1 "''S1''" 1 empty_db]
  show ?thesis by (simp add: empty_db_def table_def)
qed

text \<open>
  The claim as it was stated fails for an initial deposit that \<open>deposit\<close> rejects:
  the row created with balance zero stays in the store, with no transaction record,
  and the view answers with the error.
\<close>

theorem create_account_counterexample:
  "create_account 1 ''S1'' 1 (POST_valid (''savings'', 0)) empty_db
     = (Failed InvalidAmount,
        \<lparr>savings = [\<lparr>account_number = ''S1'', customer = 1, balance = 0, is_active = True\<rparr>],
         current = [], transactions = []\<rparr>)"
  by (simp add: create_account_def objects_create_def deposit_def table_def empty_db_def Let_def)

section \<open>Dashboard: recent transactions\<close>

lemma dashboard_recent:
  "recent_transactions (dashboard user d) =
     take 10 (sort_key (\<lambda>t. - int (timestamp t)) (dashboard_candidates user d))"
  by (simp add: dashboard_def Let_def dashboard_candidates_def)

lemma sorted_take_le_drop:
  assumes "sorted (map f xs)"
  shows "\<forall>x \<in> set (take n xs). \<forall>y \<in> set (drop n xs). f x \<le> f y"
proof -
  have "sorted (map f (take n xs @ drop n xs))" using assms by simp
  then show ?thesis
    unfolding map_append sorted_append by auto
qed

text \<open>
  Claim C8, as the code has it. The dashboard sorts, by timestamp descending, the
  first five transactions of each active account of the customer (the candidates)
  and shows the first ten of them. The list shown has at most ten entries, is in
  descending order of timestamp, and consists of candidates; every transaction shown
  is at least as recent as every candidate left out; and the shown and the left-out
  candidates together are the candidates.
\<close>

theorem dashboard_recent_of_candidates:
  "recent_transactions (dashboard user d) =
     take 10 (sort_key (\<lambda>t. - int (timestamp t)) (dashboard_candidates user d))
   \<and> length (recent_transactions (dashboard user d)) \<le> 10
   \<and> sorted (map (\<lambda>t. - int (timestamp t)) (recent_transactions (dashboard user d)))
   \<and> set (recent_transactions (dashboard user d)) \<subseteq> set (dashboard_candidates user d)
   \<and> (\<forall>x \<in> set (recent_transactions (dashboard user d)).
        \<forall>y \<in> set (dashboard_omitted user d). timestamp y \<le> timestamp x)
   \<and> set (recent_transactions (dashboard user d)) \<union> set (dashboard_omitted user d)
       = set (dashboard_candidates user d)"
proof -
  let ?key = "\<lambda>t. - int (timestamp t)"
  let ?C = "dashboard_candidates user d"
  let ?S = "sort_key ?key ?C"
  have r: "recent_transactions (dashboard user d) = take 10 ?S" by (rule dashboard_recent)
  have o: "dashboard_omitted user d = drop 10 ?S" by (simp add: dashboard_omitted_def)
  have s: "sorted (map ?key ?S)" by (rule sorted_sort_key)
  have c2: "length (take 10 ?S) \<le> 10" by simp
  have "sorted (take 10 (map ?key ?S))" using s by (rule sorted_wrt_take)
  then have c3: "sorted (map ?key (take 10 ?S))" by (simp add: take_map)
  have "set (take 10 ?S) \<subseteq> set ?S" by (rule set_take_subset)
  then have c4: "set (take 10 ?S) \<subseteq> set ?C" by simp
  have c5: "\<forall>x \<in> set (take 10 ?S). \<forall>y \<in> set (drop 10 ?S). timestamp y \<le> timestamp x"
    using sorted_take_le_drop [OF s, of 10] by auto
  have "set (take 10 ?S) \<union> set (drop 10 ?S) = set ?S"
    by (simp only: set_append [symmetric] append_take_drop_id)
  then have c6: "set (take 10 ?S) \<union> set (drop 10 ?S) = set ?C" by (simp only: set_sort)
  show ?thesis
    unfolding r o
    by (rule conjI [OF refl conjI [OF c2 conjI [OF c3 conjI [OF c4 conjI [OF c5 c6]]]]])
qed

text \<open>On a store where a savings account has six transactions and a current account one: the candidates are the five newest of the former and the one of the latter.\<close>

theorem dashboard_recent_of_candidates_witness:
  "map timestamp (dashboard_candidates 1 ex_dash_db) = [16, 15, 14, 13, 12, 1]
   \<and> recent_transactions (dashboard 1 ex_dash_db)
       = take 10 (sort_key (\<lambda>t. - int (timestamp t)) (dashboard_candidates 1 ex_dash_db))
   \<and> length (recent_transactions (dashboard 1 ex_dash_db)) \<le> 10
   \<and> set (recent_transactions (dashboard 1 ex_dash_db)) \<subseteq> set (dashboard_candidates 1 ex_dash_db)"
proof -
  have "map timestamp (dashboard_candidates 1 ex_dash_db) = [16, 15, 14, 13, 12, 1]"
    by (simp add: dashboard_candidates_def ex_dash_db_def transactions_all_def
        account_transactions_def objects_filter_def objects_all_def table_def)
  with dashboard_recent_of_candidates [of 1 ex_dash_db] show ?thesis by blast
qed

text \<open>
  The claim as it was stated fails. The savings account's sixth transaction (clock
  reading 11) is newer than the current account's only transaction (clock reading
  1), yet the dashboard shows the latter and not the former: the list is not the ten
  most recent transactions across the accounts.
\<close>

theorem dashboard_recent_counterexample:
  "map timestamp (recent_transactions (dashboard 1 ex_dash_db)) = [16, 15, 14, 13, 12, 1]
   \<and> map timestamp (most_recent_across 1 ex_dash_db) = [16, 15, 14, 13, 12, 11, 1]"
  by (simp add: dashboard_def most_recent_across_def Let_def ex_dash_db_def transactions_all_def
      account_transactions_def objects_filter_def objects_all_def table_def)

section \<open>Dashboard\<close>

lemma sum_get_balance:
  "sum_list (map get_balance (objects_filter k P d)) = sum_list (map balance (filter P (table k d)))"
proof -
  have "map get_balance (objects_filter k P d) = map balance (map snd (objects_filter k P d))"
    by (simp add: get_balance_def comp_def)
  then show ?thesis by (simp only: map_snd_objects_filter)
qed

text \<open>
  Claim C9. The dashboard's total balance is the sum of the balances of the
  customer's active savings accounts plus the sum of the balances of the customer's
  active current accounts. Accounts that are inactive or belong to another customer
  are not in the sums. \<open>dashboard\<close> is a function of the store and returns no store.
\<close>

theorem dashboard_total_balance:
  "total_balance (dashboard user d) =
     sum_list (map balance (filter (\<lambda>a. customer a = user \<and> is_active a) (savings d)))
     + sum_list (map balance (filter (\<lambda>a. customer a = user \<and> is_active a) (current d)))"
  by (simp add: dashboard_def Let_def sum_get_balance table_def)

section \<open>Transfer: what the relabelling touches\<close>

text \<open>
  Claim C10. In a successful transfer the relabelling finds the store as the
  withdrawal and the deposit left it (\<open>before_relabel\<close>). It selects one record \<open>i\<close>
  of the source account and one record \<open>j\<close> of the destination account, each with
  the greatest timestamp of its account's records. The store after the transfer has
  the same accounts and the same number of records; every record other than \<open>i\<close>
  and \<open>j\<close> is unchanged, whatever account it belongs to; and in every record the
  account, the amount, the timestamp and the balance snapshot are unchanged. Record
  \<open>j\<close> ends as TRANSFER_IN and record \<open>i\<close>, when it is another record, as
  TRANSFER_OUT.
\<close>

theorem relabel_touches_latest_only:
  assumes "transfer_money mb user n now_w now_d (POST_valid (to, amt, descr_opt)) d = (Success, d')"
    and "get_own_account user n d = Inr f"
    and "get_recipient_account to d = Inr t"
  shows "\<exists>i j.
      i < length (transactions (before_relabel mb now_w now_d amt f t d))
    \<and> j < length (transactions (before_relabel mb now_w now_d amt f t d))
    \<and> tx_account (transactions (before_relabel mb now_w now_d amt f t d) ! i) = fst f
    \<and> tx_account (transactions (before_relabel mb now_w now_d amt f t d) ! j) = fst t
    \<and> (\<forall>k < length (transactions (before_relabel mb now_w now_d amt f t d)).
          tx_account (transactions (before_relabel mb now_w now_d amt f t d) ! k) = fst f \<longrightarrow>
          timestamp (transactions (before_relabel mb now_w now_d amt f t d) ! k)
            \<le> timestamp (transactions (before_relabel mb now_w now_d amt f t d) ! i))
    \<and> (\<forall>k < length (transactions (before_relabel mb now_w now_d amt f t d)).
          tx_account (transactions (before_relabel mb now_w now_d amt f t d) ! k) = fst t \<longrightarrow>
          timestamp (transactions (before_relabel mb now_w now_d amt f t d) ! k)
            \<le> timestamp (transactions (before_relabel mb now_w now_d amt f t d) ! j))
    \<and> length (transactions d') = length (transactions (before_relabel mb now_w now_d amt f t d))
    \<and> (\<forall>k < length (transactions (before_relabel mb now_w now_d amt f t d)).
          k \<noteq> i \<and> k \<noteq> j \<longrightarrow>
          transactions d' ! k = transactions (before_relabel mb now_w now_d amt f t d) ! k)
    \<and> (\<forall>k < length (transactions (before_relabel mb now_w now_d amt f t d)).
          tx_account (transactions d' ! k)
            = tx_account (transactions (before_relabel mb now_w now_d amt f t d) ! k)
        \<and> amount (transactions d' ! k)
            = amount (transactions (before_relabel mb now_w now_d amt f t d) ! k)
        \<and> timestamp (transactions d' ! k)
            = timestamp (transactions (before_relabel mb now_w now_d amt f t d) ! k)
        \<and> balance_after (transactions d' ! k)
            = balance_after (transactions (before_relabel mb now_w now_d amt f t d) ! k))
    \<and> transaction_type (transactions d' ! j) = TRANSFER_IN
    \<and> (i \<noteq> j \<longrightarrow> transaction_type (transactions d' ! i) = TRANSFER_OUT)
    \<and> savings d' = savings (before_relabel mb now_w now_d amt f t d)
    \<and> current d' = current (before_relabel mb now_w now_d amt f t d)"
proof -
  let ?d2 = "before_relabel mb now_w now_d amt f t d"
  let ?xs = "transactions ?d2"
  let ?descr = "case descr_opt of None \<Rightarrow> ''Fund Transfer'' | Some s \<Rightarrow> s"
  from transfer_money_Success [OF assms(1)] assms(2,3)
  have body: "transfer_body mb now_w now_d f t n to ?descr amt d = (Inr (), d')"
    by auto
  note b = transfer_body_Inr [OF body]
  from relabel_frame [OF b(3)] obtain i j where
    i: "i < length ?xs" and j: "j < length ?xs"
    and a1: "tx_account (?xs ! i) = fst f" and a2: "tx_account (?xs ! j) = fst t"
    and m1: "\<forall>k < length ?xs. tx_account (?xs ! k) = fst f \<longrightarrow>
               timestamp (?xs ! k) \<le> timestamp (?xs ! i)"
    and m2: "\<forall>k < length ?xs. tx_account (?xs ! k) = fst t \<longrightarrow>
               timestamp (?xs ! k) \<le> timestamp (?xs ! j)"
    and t': "transactions d' =
              ?xs[i := label_out to ?descr (?xs ! i),
                  j := label_in n ?descr (?xs[i := label_out to ?descr (?xs ! i)] ! j)]"
    and s1: "savings d' = savings ?d2" and s2: "current d' = current ?d2"
    by blast
  note r = relabelled_list [OF i j t']
  have r4: "transaction_type (transactions d' ! j) = TRANSFER_IN" using r(4) by simp
  have r5: "i \<noteq> j \<longrightarrow> transaction_type (transactions d' ! i) = TRANSFER_OUT" using r(5) by simp
  show ?thesis
    apply (rule exI [of _ i])
    apply (rule exI [of _ j])
    apply (rule conjI [OF i conjI [OF j conjI [OF a1 conjI [OF a2 conjI [OF m1 conjI [OF m2
            conjI [OF r(1) conjI [OF r(2) conjI [OF r(3) conjI [OF r4 conjI [OF r5
            conjI [OF s1 s2]]]]]]]]]]]])
    done
qed

text \<open>On the example store: the transfer of 100 from S1 to C1.\<close>

theorem relabel_touches_latest_only_witness:
  "transfer_money mb0 1 ''S1'' 3 4 (POST_valid (''C1'', 100, None)) ex_db = (Success, ex_after)
   \<and> get_own_account 1 ''S1'' ex_db = Inr ex_from
   \<and> get_recipient_account ''C1'' ex_db = Inr ex_to
   \<and> length (transactions ex_after)
       = length (transactions (before_relabel mb0 3 4 100 ex_from ex_to ex_db))
   \<and> savings ex_after = savings (before_relabel mb0 3 4 100 ex_from ex_to ex_db)"
proof -
  have h1: "transfer_money mb0 1 ''S1'' 3 4 (POST_valid (''C1'', 100, None)) ex_db
              = (Success, ex_after)"
    by (simp add: ex_db_def ex_after_def mb0_def eval_defs)
  have h2: "get_own_account 1 ''S1'' ex_db = Inr ex_from"
    by (simp add: ex_db_def ex_from_def eval_defs)
  have h3: "get_recipient_account ''C1'' ex_db = Inr ex_to"
    by (simp add: ex_db_def ex_to_def eval_defs)
  from relabel_touches_latest_only [OF h1 h2 h3]
  have "length (transactions ex_after)
       = length (transactions (before_relabel mb0 3 4 100 ex_from ex_to ex_db))
   \<and> savings ex_after = savings (before_relabel mb0 3 4 100 ex_from ex_to ex_db)"
    by blast
  with h1 h2 h3 show ?thesis by simp
qed

end
